theory Spec2Isabelle
  imports Main "HOL-Library.AList"
begin

section \<open>Karton: command registration, dispatch and the top-level fault boundary\<close>

text \<open>
  A shallow embedding of \<^verbatim>\<open>karton/main.py\<close>. The program is Python 2 (it iterates a
  dictionary with \<^verbatim>\<open>itervalues\<close>), so the grammar engine is the \<^verbatim>\<open>argparse\<close> module of
  CPython 2.7. Every function of \<^verbatim>\<open>main.py\<close> is a definition of the same name here; the
  parts of \<^verbatim>\<open>argparse\<close> that the program drives are modelled next to them, each named
  after the library function it stands for.
\<close>

subsection \<open>Exceptions, values and the process-wide state\<close>

text \<open>
  The exceptions that the program distinguishes: \<^verbatim>\<open>SystemExit\<close> with its integer code
  and \<^verbatim>\<open>KeyboardInterrupt\<close> (neither is a subclass of \<^verbatim>\<open>Exception\<close>), and any instance
  of \<^verbatim>\<open>Exception\<close>, carried as the text that \<^verbatim>\<open>str\<close> gives for it.
\<close>

datatype exc = SystemExit int | KeyboardInterrupt | Exception string

datatype pyval = PNone | PBool bool | PStr string | PList "string list"

text \<open>
  An argument definition, as the arguments of a call of \<^verbatim>\<open>add_argument\<close> give it (and
  as a \<^verbatim>\<open>SharedArgument\<close> keeps them). The optional arguments of this program are all
  flags that take no value (\<^verbatim>\<open>store_true\<close>, \<^verbatim>\<open>store_const\<close> and the \<^verbatim>\<open>-h\<close> that every
  parser gets): \<open>Optional_arg flags dest action help\<close>, where \<open>dest\<close> is \<open>None\<close> when
  the call leaves it to the library. Its positionals have \<^verbatim>\<open>nargs='?'\<close> or
  \<^verbatim>\<open>nargs=argparse.REMAINDER\<close>: \<open>Positional_arg name metavar nargs help\<close>.
\<close>

datatype action_kind = Store_true | Store_const pyval | Help_action

datatype nargs = Optional | Remainder

datatype argument =
    Optional_arg "string list" "string option" action_kind string
  | Positional_arg string string nargs string

text \<open>
  An \<^verbatim>\<open>ArgumentParser\<close> object: program name, description, the argument definitions in
  the order they were added, and for the top-level parser the listing of subcommands with
  their one-line help (\<^verbatim>\<open>_choices_actions\<close> of the subparsers action).
\<close>

record parser =
  prog :: string
  description :: string
  arguments :: "argument list"
  choices_actions :: "(string \<times> string) list"

datatype level = Info | Verbose | Error

text \<open>
  What the process does to the outside, in order: help and usage texts are recorded with
  the parser object they are formatted from, diagnostics with their level and text.
\<close>

datatype event =
    Stdout_help parser
  | Stderr_usage parser
  | Stderr_text string
  | Log level string
  | Verbosity_set bool
  | Traceback exc

record world =
  verbose_flag :: bool
  trace :: "event list"

definition emit :: "event \<Rightarrow> world \<Rightarrow> world" where
  "emit e w = w\<lparr>trace := trace w @ [e]\<rparr>"

definition newline :: char where
  "newline = CHR 0x0A"

definition dquote :: char where
  "dquote = CHR 0x22"

subsection \<open>The diagnostic sink\<close>

text \<open>
  Modelled from the spec: the module \<^verbatim>\<open>logging\<close> that \<^verbatim>\<open>main.py\<close> imports
  (\<^verbatim>\<open>die\<close>, \<^verbatim>\<open>info\<close>, \<^verbatim>\<open>verbose\<close>, \<^verbatim>\<open>set_verbose\<close>, \<^verbatim>\<open>get_verbose\<close>) is not part of the
  sources. The spec describes a process-wide sink with a verbosity toggle, initially off,
  that takes messages at a level; \<^verbatim>\<open>die\<close> prints its message and terminates with the
  failure exit code 1.
\<close>

definition set_verbose :: "bool \<Rightarrow> world \<Rightarrow> world" where
  "set_verbose b w = emit (Verbosity_set b) (w\<lparr>verbose_flag := b\<rparr>)"

definition get_verbose :: "world \<Rightarrow> bool" where
  "get_verbose w = verbose_flag w"

definition info :: "string \<Rightarrow> world \<Rightarrow> world" where
  "info msg w = emit (Log Info msg) w"

definition verbose :: "string \<Rightarrow> world \<Rightarrow> world" where
  "verbose msg w = emit (Log Verbose msg) w"

definition die :: "string \<Rightarrow> world \<Rightarrow> (exc + 'a) \<times> world" where
  "die msg w = (Inl (SystemExit 1), emit (Log Error msg) w)"

definition initial_world :: world where
  "initial_world = \<lparr>verbose_flag = False, trace = []\<rparr>"

subsection \<open>Error presentation of the parser\<close>

text \<open>
  \<^verbatim>\<open>argparse.ArgumentParser.print_help\<close> writes the formatted help to standard output,
  \<^verbatim>\<open>print_usage(sys.stderr)\<close> the usage line to standard error, and
  \<^verbatim>\<open>exit(status, message)\<close> writes the message to standard error and raises
  \<^verbatim>\<open>SystemExit(status)\<close>. The library's \<^verbatim>\<open>error\<close> is
  \<^verbatim>\<open>print_usage(sys.stderr); exit(2, '%s: error: %s\n' % (prog, message))\<close>.
\<close>

definition print_help :: "parser \<Rightarrow> world \<Rightarrow> world" where
  "print_help p w = emit (Stdout_help p) w"

definition print_usage_stderr :: "parser \<Rightarrow> world \<Rightarrow> world" where
  "print_usage_stderr p w = emit (Stderr_usage p) w"

definition argparse_error :: "parser \<Rightarrow> string \<Rightarrow> world \<Rightarrow> (exc + 'a) \<times> world" where
  "argparse_error p message w =
     (Inl (SystemExit 2),
      emit (Stderr_text (prog p @ '': error: '' @ message @ [newline])) (print_usage_stderr p w))"

text \<open>\<^verbatim>\<open>ArgumentParser.error\<close> of \<^verbatim>\<open>main.py\<close>, which overrides the library's.\<close>

definition error :: "parser \<Rightarrow> string \<Rightarrow> world \<Rightarrow> (exc + 'a) \<times> world" where
  "error p message w =
     (if message = ''too few arguments''
      then (Inl (SystemExit 1), print_help p w)
      else argparse_error p message w)"

subsection \<open>Adding arguments to a parser\<close>

fun join :: "string \<Rightarrow> string list \<Rightarrow> string" where
  "join sep [] = []"
| "join sep [x] = x"
| "join sep (x # y # ys) = x @ sep @ join sep (y # ys)"

definition startswith :: "string \<Rightarrow> string \<Rightarrow> bool" where
  "startswith s p = (take (length p) s = p)"

text \<open>
  \<^verbatim>\<open>repr\<close> of a string, as the library's messages use it: exact for strings without
  quotes, backslashes and unprintable characters.
\<close>

definition repr :: "string \<Rightarrow> string" where
  "repr s = [CHR 0x27] @ s @ [CHR 0x27]"

text \<open>
  The destination of an optional argument (\<^verbatim>\<open>_get_optional_kwargs\<close>): the \<^verbatim>\<open>dest\<close> keyword
  when given, otherwise the first long option string, or else the first option string,
  without its leading dashes and with \<^verbatim>\<open>-\<close> replaced by \<^verbatim>\<open>_\<close>.
\<close>

definition is_long :: "string \<Rightarrow> bool" where
  "is_long s = (case s of c0 # c1 # _ \<Rightarrow> c1 = CHR ''-'' | _ \<Rightarrow> False)"

definition inferred_dest :: "string list \<Rightarrow> string" where
  "inferred_dest flags =
     (let dest_option_string = (case filter is_long flags of l # _ \<Rightarrow> l | [] \<Rightarrow> hd flags)
      in map (\<lambda>c. if c = CHR ''-'' then CHR ''_'' else c)
           (dropWhile (\<lambda>c. c = CHR ''-'') dest_option_string))"

fun dest :: "argument \<Rightarrow> string" where
  "dest (Optional_arg flags (Some d) k h) = d"
| "dest (Optional_arg flags None k h) = inferred_dest flags"
| "dest (Positional_arg n m na h) = n"

fun option_strings :: "argument \<Rightarrow> string list" where
  "option_strings (Optional_arg flags d k h) = flags"
| "option_strings (Positional_arg n m na h) = []"

text \<open>The library's \<^verbatim>\<open>_get_action_name\<close>, used in the text of an \<^verbatim>\<open>ArgumentError\<close>.\<close>

fun get_action_name :: "argument \<Rightarrow> string" where
  "get_action_name (Optional_arg flags d k h) = join ''/'' flags"
| "get_action_name (Positional_arg n m na h) = m"

text \<open>\<^verbatim>\<open>_option_string_actions\<close>: every option string of the parser with its action.\<close>

definition option_string_actions :: "argument list \<Rightarrow> (string \<times> argument) list" where
  "option_string_actions args = concat (map (\<lambda>a. map (\<lambda>s. (s, a)) (option_strings a)) args)"

text \<open>
  \<^verbatim>\<open>add_argument\<close>. A call with no flag at all, or with one name that does not start
  with \<^verbatim>\<open>-\<close>, defines a positional; the datatype keeps the two shapes apart, and an
  \<open>Optional_arg\<close> without a flag, which no call produces, is refused. A flag that does not start with \<^verbatim>\<open>-\<close> and
  an empty destination raise \<^verbatim>\<open>ValueError\<close>; an option string that the parser already
  has raises \<^verbatim>\<open>ArgumentError\<close> (the conflict handler is the default \<^verbatim>\<open>'error'\<close>). All
  of them are instances of \<^verbatim>\<open>Exception\<close>.
\<close>

definition add_argument :: "argument \<Rightarrow> parser \<Rightarrow> exc + parser" where
  "add_argument a p =
     (case a of
        Positional_arg n m na h \<Rightarrow> Inr (p\<lparr>arguments := arguments p @ [a]\<rparr>)
      | Optional_arg flags d k h \<Rightarrow>
          (case filter (\<lambda>s. \<not> startswith s ''-'') flags of
             bad # _ \<Rightarrow>
               Inl (Exception (''invalid option string '' @ repr bad @
                               '': must start with a character '' @ repr ''-''))
           | [] \<Rightarrow>
               if flags = [] \<or> dest a = [] then
                 Inl (Exception (''dest= is required for options like '' @
                                 repr (if flags = [] then [] else hd flags)))
               else
                 (case filter (\<lambda>s. s \<in> set (map fst (option_string_actions (arguments p)))) flags of
                    [] \<Rightarrow> Inr (p\<lparr>arguments := arguments p @ [a]\<rparr>)
                  | c # cs \<Rightarrow>
                      Inl (Exception (''argument '' @ get_action_name a @
                                      '': conflicting option string(s): '' @ join '', '' (c # cs))))))"

text \<open>
  A new \<^verbatim>\<open>ArgumentParser(prog=..., description=...)\<close>: with the default
  \<^verbatim>\<open>add_help=True\<close> its constructor adds \<^verbatim>\<open>-h/--help\<close>.
\<close>

definition help_argument_help :: string where
  "help_argument_help =
     ''show this help message and exit''"

definition help_argument :: argument where
  "help_argument =
     Optional_arg [''-h'', ''--help''] (Some ''help'') Help_action help_argument_help"

definition ArgumentParser :: "string \<Rightarrow> string \<Rightarrow> parser" where
  "ArgumentParser pr descr =
     \<lparr>prog = pr, description = descr, arguments = [help_argument], choices_actions = []\<rparr>"

subsection \<open>Shared arguments and the command registry\<close>

text \<open>
  \<^verbatim>\<open>SharedArgument\<close> keeps the arguments of one \<^verbatim>\<open>add_argument\<close> call;
  \<^verbatim>\<open>add_to_parser\<close> makes the call on the target parser.
\<close>

datatype SharedArgument = SharedArgument argument

datatype callback = Do_run | Do_shell | Do_start | Do_stop | Do_status | Do_build | Do_help

text \<open>
  \<^verbatim>\<open>CommandInfo\<close> holds a reference to the subparser object, not a copy: the same object
  is in the subparsers action's \<^verbatim>\<open>_name_parser_map\<close>, and \<^verbatim>\<open>add_to_every_command\<close>
  changes it through the reference. The subparser objects therefore live in a store
  (\<open>heap\<close>), a reference is an index into it.
\<close>

record CommandInfo =
  name :: string
  subparser :: nat
  callback :: callback

text \<open>
  The local state of \<^verbatim>\<open>run_karton\<close>: the top-level \<^verbatim>\<open>parser\<close>, the name-to-parser map
  of \<^verbatim>\<open>subparsers\<close>, the subparser objects and the dictionary \<^verbatim>\<open>all_commands\<close>.
  A dictionary is an association list in insertion order; Python 2 does not fix the
  iteration order of a \<^verbatim>\<open>dict\<close>, and nothing below depends on it.
\<close>

record registry =
  top_parser :: parser
  name_parser_map :: "(string \<times> nat) list"
  heap :: "parser list"
  all_commands :: "(string \<times> CommandInfo) list"

definition prog_name :: string where
  "prog_name = ''karton''"

text \<open>The description of the program, as \<^verbatim>\<open>run_karton\<close> passes it.\<close>

definition karton_description :: string where
  "karton_description =
     ''Manages semi-persistent Docker containers.''"

text \<open>
  \<^verbatim>\<open>parser = ArgumentParser(description=...)\<close> followed by
  \<^verbatim>\<open>parser.add_subparsers(dest='command', metavar='COMMAND')\<close>, and
  \<^verbatim>\<open>all_commands = {}\<close>.
\<close>

definition new_registry :: registry where
  "new_registry =
     \<lparr>top_parser = ArgumentParser prog_name karton_description,
      name_parser_map = [], heap = [], all_commands = []\<rparr>"

text \<open>
  \<^verbatim>\<open>_SubParsersAction.add_parser\<close> of Python 2.7: it appends the name and its help to the
  subcommand listing, creates the parser and stores it with
  \<^verbatim>\<open>self._name_parser_map[name] = parser\<close>. It does not look whether the name is taken.
\<close>

definition add_parser :: "string \<Rightarrow> string \<Rightarrow> string \<Rightarrow> registry \<Rightarrow> nat \<times> registry" where
  "add_parser nm hlp descr r =
     (let ref = length (heap r) in
      (ref,
       r\<lparr>top_parser :=
           (top_parser r)\<lparr>choices_actions := choices_actions (top_parser r) @ [(nm, hlp)]\<rparr>,
         heap := heap r @ [ArgumentParser (prog (top_parser r) @ '' '' @ nm) descr],
         name_parser_map := AList.update nm ref (name_parser_map r)\<rparr>))"

definition add_command ::
  "string \<Rightarrow> callback \<Rightarrow> string \<Rightarrow> string \<Rightarrow> registry \<Rightarrow> nat \<times> registry" where
  "add_command command_name cb hlp descr r =
     (case add_parser command_name hlp descr r of
        (command_subparser, r1) \<Rightarrow>
          (command_subparser,
           r1\<lparr>all_commands :=
                AList.update command_name
                  \<lparr>name = command_name, subparser = command_subparser, callback = cb\<rparr>
                  (all_commands r1)\<rparr>))"

text \<open>
  \<^verbatim>\<open>add_argument\<close> on the parser object behind a reference. A reference always comes
  from \<^verbatim>\<open>add_parser\<close>, so the first branch is never taken by the program.
\<close>

definition add_argument_at :: "argument \<Rightarrow> nat \<Rightarrow> registry \<Rightarrow> exc + registry" where
  "add_argument_at a ref r =
     (if length (heap r) \<le> ref then Inl (Exception ''no such parser object'')
      else (case add_argument a (heap r ! ref) of
              Inl e \<Rightarrow> Inl e
            | Inr p \<Rightarrow> Inr (r\<lparr>heap := (heap r)[ref := p]\<rparr>)))"

fun add_to_parser :: "SharedArgument \<Rightarrow> nat \<Rightarrow> registry \<Rightarrow> exc + registry" where
  "add_to_parser (SharedArgument a) target_parser r = add_argument_at a target_parser r"

fun add_group_to_parser :: "nat \<Rightarrow> SharedArgument list \<Rightarrow> registry \<Rightarrow> exc + registry" where
  "add_group_to_parser target_parser [] r = Inr r"
| "add_group_to_parser target_parser (arg # shared_arguments) r =
     (case add_to_parser arg target_parser r of
        Inl e \<Rightarrow> Inl e
      | Inr r1 \<Rightarrow> add_group_to_parser target_parser shared_arguments r1)"

text \<open>\<^verbatim>\<open>for command in all_commands.itervalues(): command.subparser.add_argument(...)\<close>\<close>

fun add_to_each :: "argument \<Rightarrow> CommandInfo list \<Rightarrow> registry \<Rightarrow> exc + registry" where
  "add_to_each a [] r = Inr r"
| "add_to_each a (command # commands) r =
     (case add_argument_at a (subparser command) r of
        Inl e \<Rightarrow> Inl e
      | Inr r1 \<Rightarrow> add_to_each a commands r1)"

definition add_to_every_command :: "argument \<Rightarrow> registry \<Rightarrow> exc + registry" where
  "add_to_every_command a r = add_to_each a (map snd (all_commands r)) r"

text \<open>\<^verbatim>\<open>all_commands.get(name)\<close>\<close>

definition get_command :: "registry \<Rightarrow> string \<Rightarrow> CommandInfo option" where
  "get_command r nm = map_of (all_commands r) nm"

subsection \<open>The grammar that \<^verbatim>\<open>run_karton\<close> builds\<close>

text \<open>The help and description texts of the commands and of their arguments.\<close>

definition no_cd_help :: string where
  "no_cd_help =
     (''don'' @ [CHR 0x27] @ ''t change the current directory in the container'')"

definition auto_cd_help :: string where
  "auto_cd_help =
     (''chanbge the current directory in the container only if the same is available '' @
     ''in both container and host'')"

definition verbose_help :: string where
  "verbose_help =
     ''enable verbose logging''"

definition run_help :: string where
  "run_help =
     ''run a  program in the container''"

definition run_description :: string where
  "run_description =
     ''Runs a program or command inside the container (starting it if necessary).''"

definition remainder_help :: string where
  "remainder_help =
     ''commands to execute in the container''"

definition shell_help :: string where
  "shell_help =
     ''start a shell in the container''"

definition shell_description :: string where
  "shell_description =
     ''Starts an interactive shell inside the container (starting it if necessary)''"

definition start_help :: string where
  "start_help =
     ''if not running, start the container''"

definition start_description :: string where
  "start_description =
     (''Starts the container. If already running does nothing. '' @
     ''Usually you should not need to use this command as both '' @ [dquote] @ ''run'' @
     [dquote] @ '' and '' @ [dquote] @ ''shell'' @ [dquote] @ '' start '' @
     ''the container automatically.'')"

definition stop_help :: string where
  "stop_help =
     ''stop the container if running''"

definition stop_description :: string where
  "stop_description =
     ''Stops the container. If already not running does nothing.''"

definition status_help :: string where
  "status_help =
     ''query the status of the container''"

definition status_description :: string where
  "status_description =
     (''Prints information about the status of the container and the list of '' @
     ''programs running in it.'')"

definition build_help :: string where
  "build_help =
     ''build the image for the container''"

definition build_description :: string where
  "build_description =
     ''Builds (or rebuilds) the image for the specified container.''"

definition help_help :: string where
  "help_help =
     ''show the help message''"

definition help_description :: string where
  "help_description =
     (''Shows the documentation. If used with no argument, then the general '' @
     ''documentation is shown. Otherwise, when a command is specified as argument, '' @
     ''the documentation for that command is shown.'')"

definition sub_command_help :: string where
  "sub_command_help =
     ''command you want to know more about''"

definition cd_args :: "SharedArgument list" where
  "cd_args =
     [SharedArgument (Optional_arg [''--no-cd''] (Some ''cd'') (Store_const (PStr ''no''))
        no_cd_help),
      SharedArgument (Optional_arg [''--auto-cd''] (Some ''cd'') (Store_const (PStr ''auto''))
        auto_cd_help)]"

definition verbose_argument :: argument where
  "verbose_argument = Optional_arg [''-v'', ''--verbose''] None Store_true verbose_help"

text \<open>
  The statements of \<^verbatim>\<open>run_karton\<close> from the creation of the parser to the call of
  \<^verbatim>\<open>add_to_every_command\<close>, in their order. An exception of a step ends the sequence.
\<close>

definition build_registry :: "exc + registry" where
  "build_registry =
     (case add_command ''run'' Do_run run_help
             run_description
             new_registry of
      (run_parser, r1) \<Rightarrow>
     (case add_argument_at
             (Positional_arg ''remainder'' ''COMMANDS'' Remainder
                remainder_help) run_parser r1 of
        Inl e \<Rightarrow> Inl e
      | Inr r2 \<Rightarrow>
     (case add_group_to_parser run_parser cd_args r2 of
        Inl e \<Rightarrow> Inl e
      | Inr r3 \<Rightarrow>
     (case add_command ''shell'' Do_shell shell_help
             shell_description r3 of
      (shell_parser, r4) \<Rightarrow>
     (case add_group_to_parser shell_parser cd_args r4 of
        Inl e \<Rightarrow> Inl e
      | Inr r5 \<Rightarrow>
     (case add_command ''start'' Do_start start_help
             start_description r5 of
      (start_parser, r6) \<Rightarrow>
     (case add_command ''stop'' Do_stop stop_help
             stop_description r6 of
      (stop_parser, r7) \<Rightarrow>
     (case add_command ''status'' Do_status status_help
             status_description r7 of
      (status_parser, r8) \<Rightarrow>
     (case add_command ''build'' Do_build build_help
             build_description r8 of
      (build_parser, r9) \<Rightarrow>
     (case add_command ''help'' Do_help help_help
             help_description r9 of
      (help_parser, r10) \<Rightarrow>
     (case add_argument_at
             (Positional_arg ''sub_command'' ''COMMAND'' Optional
                sub_command_help) help_parser r10 of
        Inl e \<Rightarrow> Inl e
      | Inr r11 \<Rightarrow> add_to_every_command verbose_argument r11)))))))))))"

text \<open>The registry that these statements leave when none of them raises.\<close>

definition karton_registry :: registry where
  "karton_registry = (case build_registry of Inr r \<Rightarrow> r | Inl e \<Rightarrow> new_registry)"

subsection \<open>The grammar engine: classifying the argument strings\<close>

text \<open>
  The engine is \<^verbatim>\<open>argparse\<close> of CPython 2.7.18, restricted to what the argument
  definitions above can express. \<^verbatim>\<open>_parse_known_args\<close> first gives every argument string
  a class: \<^verbatim>\<open>'A'\<close> for a positional, \<^verbatim>\<open>'-'\<close> for the first \<^verbatim>\<open>--\<close> (everything after
  it is \<^verbatim>\<open>'A'\<close>), \<^verbatim>\<open>'O'\<close> for an option, with the option tuple
  (action, option string, explicit argument) that \<^verbatim>\<open>_parse_optional\<close> returns.
\<close>

datatype cls = CA | CD | CO "argument option" string "string option"

definition lookup_option :: "argument list \<Rightarrow> string \<Rightarrow> argument option" where
  "lookup_option args s = map_of (option_string_actions args) s"

text \<open>\<^verbatim>\<open>s.split('=', 1)\<close> for a string that contains \<^verbatim>\<open>=\<close>.\<close>

definition split_eq :: "string \<Rightarrow> string \<times> string" where
  "split_eq s = (takeWhile (\<lambda>c. c \<noteq> CHR ''='') s, drop 1 (dropWhile (\<lambda>c. c \<noteq> CHR ''='') s))"

definition is_digit :: "char \<Rightarrow> bool" where
  "is_digit c = (c \<in> set ''0123456789'')"

text \<open>
  The library's \<^verbatim>\<open>_negative_number_matcher\<close>, the regular expression
  \<^verbatim>\<open>^-\d+$|^-\d*\.\d+$\<close>; \<^verbatim>\<open>$\<close> also matches before a newline that ends the string.
\<close>

definition negative_number_like :: "string \<Rightarrow> bool" where
  "negative_number_like s0 =
     (let s = (if s0 \<noteq> [] \<and> last s0 = newline then butlast s0 else s0) in
      case s of
        [] \<Rightarrow> False
      | c # r \<Rightarrow>
          c = CHR ''-'' \<and>
          ((r \<noteq> [] \<and> list_all is_digit r) \<or>
           (case dropWhile is_digit r of
              [] \<Rightarrow> False
            | d # f \<Rightarrow> d = CHR ''.'' \<and> f \<noteq> [] \<and> list_all is_digit f)))"

definition has_negative_number_optionals :: "argument list \<Rightarrow> bool" where
  "has_negative_number_optionals args =
     list_ex negative_number_like (map fst (option_string_actions args))"

text \<open>\<^verbatim>\<open>_get_option_tuples\<close>: the registered option strings that the string abbreviates.\<close>

definition get_option_tuples :: "argument list \<Rightarrow> string \<Rightarrow> cls list" where
  "get_option_tuples args s =
     (if is_long s then
        (let option_prefix = (if CHR ''='' \<in> set s then fst (split_eq s) else s);
             explicit_arg = (if CHR ''='' \<in> set s then Some (snd (split_eq s)) else None)
         in map (\<lambda>(os, a). CO (Some a) os explicit_arg)
              (filter (\<lambda>(os, a). startswith os option_prefix) (option_string_actions args)))
      else
        concat (map (\<lambda>(os, a).
                  if os = take 2 s then [CO (Some a) os (Some (drop 2 s))]
                  else if startswith os s then [CO (Some a) os None]
                  else [])
               (option_string_actions args)))"

fun option_string_of :: "cls \<Rightarrow> string" where
  "option_string_of (CO a os e) = os"
| "option_string_of c = []"

text \<open>
  \<^verbatim>\<open>_parse_optional\<close>. \<open>Inl\<close> is the message of the call \<^verbatim>\<open>self.error(...)\<close> for an
  ambiguous abbreviation; \<open>Inr CA\<close> stands for the result \<^verbatim>\<open>None\<close>.
\<close>

definition parse_optional :: "argument list \<Rightarrow> string \<Rightarrow> string + cls" where
  "parse_optional args s =
     (if s = [] then Inr CA
      else if hd s \<noteq> CHR ''-'' then Inr CA
      else
        (case lookup_option args s of
           Some a \<Rightarrow> Inr (CO (Some a) s None)
         | None \<Rightarrow>
             if length s = 1 then Inr CA
             else
               (case (if CHR ''='' \<in> set s then lookup_option args (fst (split_eq s)) else None) of
                  Some a \<Rightarrow> Inr (CO (Some a) (fst (split_eq s)) (Some (snd (split_eq s))))
                | None \<Rightarrow>
                    (case get_option_tuples args s of
                       t1 # t2 # ts \<Rightarrow>
                         Inl (''ambiguous option: '' @ s @ '' could match '' @
                              join '', '' (map option_string_of (t1 # t2 # ts)))
                     | [t] \<Rightarrow> Inr t
                     | [] \<Rightarrow>
                         if negative_number_like s \<and> \<not> has_negative_number_optionals args
                         then Inr CA
                         else if CHR '' '' \<in> set s then Inr CA
                         else Inr (CO None s None)))))"

fun classify :: "argument list \<Rightarrow> string list \<Rightarrow> string + (string \<times> cls) list" where
  "classify args [] = Inr []"
| "classify args (s # ss) =
     (if s = ''--'' then Inr ((s, CD) # map (\<lambda>t. (t, CA)) ss)
      else
        (case parse_optional args s of
           Inl m \<Rightarrow> Inl m
         | Inr c \<Rightarrow>
             (case classify args ss of
                Inl m \<Rightarrow> Inl m
              | Inr cs \<Rightarrow> Inr ((s, c) # cs))))"

subsection \<open>The grammar engine: matching positionals\<close>

text \<open>
  The classes of the argument strings form the string \<^verbatim>\<open>arg_strings_pattern\<close>, and the
  library matches regular expressions against it: \<^verbatim>\<open>(-*A?-*)\<close> for \<^verbatim>\<open>nargs='?'\<close>,
  \<^verbatim>\<open>([-AO]*)\<close> for \<^verbatim>\<open>REMAINDER\<close> and \<^verbatim>\<open>(-*A[-AO]*)\<close> for the subparsers action
  (\<^verbatim>\<open>PARSER\<close>). A group is a list of atoms, an atom a character class with a quantifier;
  \<open>re_match\<close> is the greedy backtracking match of \<^verbatim>\<open>re.match\<close> and returns the length
  of each group.
\<close>

datatype pat = PA | PO | PD

datatype quant = One | Opt | Star

type_synonym atom = "pat list \<times> quant"

fun pat_of :: "string \<times> cls \<Rightarrow> pat" where
  "pat_of (s, CA) = PA"
| "pat_of (s, CD) = PD"
| "pat_of (s, CO a os e) = PO"

fun bump :: "nat list \<Rightarrow> nat list" where
  "bump [] = []"
| "bump (n # ns) = Suc n # ns"

fun re_match :: "atom list list \<Rightarrow> pat list \<Rightarrow> nat list option" where
  "re_match [] s = Some []"
| "re_match ([] # gs) s = map_option (\<lambda>ns. 0 # ns) (re_match gs s)"
| "re_match (((cs, One) # as) # gs) [] = None"
| "re_match (((cs, One) # as) # gs) (x # s) =
     (if x \<in> set cs then map_option bump (re_match (as # gs) s) else None)"
| "re_match (((cs, Opt) # as) # gs) [] = re_match (as # gs) []"
| "re_match (((cs, Opt) # as) # gs) (x # s) =
     (case (if x \<in> set cs then map_option bump (re_match (as # gs) s) else None) of
        Some r \<Rightarrow> Some r
      | None \<Rightarrow> re_match (as # gs) (x # s))"
| "re_match (((cs, Star) # as) # gs) [] = re_match (as # gs) []"
| "re_match (((cs, Star) # as) # gs) (x # s) =
     (case (if x \<in> set cs then map_option bump (re_match (((cs, Star) # as) # gs) s) else None) of
        Some r \<Rightarrow> Some r
      | None \<Rightarrow> re_match (as # gs) (x # s))"

definition pattern_optional :: "atom list" where
  "pattern_optional = [([PD], Star), ([PA], Opt), ([PD], Star)]"

definition pattern_remainder :: "atom list" where
  "pattern_remainder = [([PD, PA, PO], Star)]"

definition pattern_parser :: "atom list" where
  "pattern_parser = [([PD], Star), ([PA], One), ([PD, PA, PO], Star)]"

text \<open>
  \<^verbatim>\<open>_match_arguments_partial\<close>: the longest initial slice of the remaining positionals
  whose patterns match, tried from the whole list down to one positional.
\<close>

fun match_slices :: "nat \<Rightarrow> atom list list \<Rightarrow> pat list \<Rightarrow> nat list" where
  "match_slices 0 gs s = []"
| "match_slices (Suc i) gs s =
     (case re_match (take (Suc i) gs) s of
        Some r \<Rightarrow> r
      | None \<Rightarrow> match_slices i gs s)"

definition match_partial :: "('p \<Rightarrow> atom list) \<Rightarrow> 'p list \<Rightarrow> pat list \<Rightarrow> nat list" where
  "match_partial np ps s = match_slices (length ps) (map np ps) s"

subsection \<open>The grammar engine: consuming the argument strings\<close>

text \<open>
  What \<^verbatim>\<open>_parse_known_args\<close> does with the classified strings, in order, as a list of
  steps: an action taken for an option or for a positional with its argument strings, a
  string put aside as unrecognised (\<^verbatim>\<open>extras\<close>), or a raise (an \<^verbatim>\<open>ArgumentError\<close> for
  an action, or another exception). The steps do not depend on what the actions do.
\<close>

datatype 'p step =
    Take_optional argument string
  | Take_positional 'p "string list"
  | Extra string
  | Fail_argument argument string
  | Fail_exception string

text \<open>
  The part of \<^verbatim>\<open>consume_optional\<close> for an option with an explicit argument. Every option
  takes no value, so a single-dash option hands the explicit argument on as further
  single-dash options (\<^verbatim>\<open>-xyz\<close> is \<^verbatim>\<open>-x -y -z\<close>) and a double-dash option refuses
  it. \<^verbatim>\<open>explicit_arg[0]\<close> of an empty explicit argument (\<^verbatim>\<open>-v=\<close>) and
  \<^verbatim>\<open>option_string[1]\<close> of a one-character option string raise \<^verbatim>\<open>IndexError\<close>. No action
  of the string is taken when one of them fails.
\<close>

fun consume_explicit ::
  "argument list \<Rightarrow> argument \<Rightarrow> string \<Rightarrow> string \<Rightarrow> 'p step + (argument \<times> string) list" where
  "consume_explicit args action (c0 # c1 # cs) [] =
     (if c1 = CHR ''-''
      then Inl (Fail_argument action (''ignored explicit argument '' @ repr []))
      else Inl (Fail_exception ''string index out of range''))"
| "consume_explicit args action (c0 # c1 # cs) (c # e) =
     (if c1 = CHR ''-''
      then Inl (Fail_argument action (''ignored explicit argument '' @ repr (c # e)))
      else
        (case lookup_option args [c0, c] of
           None \<Rightarrow> Inl (Fail_argument action (''ignored explicit argument '' @ repr (c # e)))
         | Some action' \<Rightarrow>
             if e = [] then Inr [(action, c0 # c1 # cs), (action', [c0, c])]
             else
               (case consume_explicit args action' [c0, c] e of
                  Inl f \<Rightarrow> Inl f
                | Inr tuples \<Rightarrow> Inr ((action, c0 # c1 # cs) # tuples))))"
| "consume_explicit args action option_string e = Inl (Fail_exception ''string index out of range'')"

text \<open>\<^verbatim>\<open>consume_optional\<close> at a string of class \<^verbatim>\<open>'O'\<close>.\<close>

fun consume_optional :: "argument list \<Rightarrow> string \<times> cls \<Rightarrow> 'p step list" where
  "consume_optional args (tok, CO None os e) = [Extra tok]"
| "consume_optional args (tok, CO (Some a) os None) = [Take_optional a os]"
| "consume_optional args (tok, CO (Some a) os (Some e)) =
     (case consume_explicit args a os e of
        Inl f \<Rightarrow> [f]
      | Inr tuples \<Rightarrow> map (\<lambda>(a, s). Take_optional a s) tuples)"
| "consume_optional args (tok, c) = []"

text \<open>
  \<^verbatim>\<open>consume_positionals\<close>: the positionals matched, each with its slice of the argument
  strings, the positionals that remain, and the number of strings consumed.
\<close>

fun take_slices :: "'p list \<Rightarrow> nat list \<Rightarrow> (string \<times> cls) list \<Rightarrow> 'p step list" where
  "take_slices (p # ps) (n # ns) ts =
     Take_positional p (map fst (take n ts)) # take_slices ps ns (drop n ts)"
| "take_slices ps ns ts = []"

definition consume_positionals ::
  "('p \<Rightarrow> atom list) \<Rightarrow> 'p list \<Rightarrow> (string \<times> cls) list \<Rightarrow> 'p step list \<times> 'p list \<times> nat" where
  "consume_positionals np ps ts =
     (let arg_counts = match_partial np ps (map pat_of ts)
      in (take_slices ps arg_counts ts, drop (length arg_counts) ps, sum_list arg_counts))"

definition is_O :: "string \<times> cls \<Rightarrow> bool" where
  "is_O t = (pat_of t = PO)"

text \<open>
  The loop of \<^verbatim>\<open>_parse_known_args\<close> on the strings from \<^verbatim>\<open>start_index\<close> on. While an
  option is still ahead: when the next string is not that option, positionals are
  consumed, and if they consumed nothing the strings before the option become extras;
  then the option is consumed. After the last option the positionals are consumed once
  more and the strings left over become extras. The result is the steps and the
  positionals that were never matched.
\<close>

function consume ::
  "('p \<Rightarrow> atom list) \<Rightarrow> argument list \<Rightarrow> 'p list \<Rightarrow> (string \<times> cls) list \<Rightarrow> 'p step list \<times> 'p list" where
  "consume np args ps ts =
     (if \<not> list_ex is_O ts then
        (case consume_positionals np ps ts of
           (taken, ps1, n) \<Rightarrow> (taken @ map (\<lambda>t. Extra (fst t)) (drop n ts), ps1))
      else if is_O (hd ts) then
        (case consume np args ps (tl ts) of
           (steps, ps2) \<Rightarrow> (consume_optional args (hd ts) @ steps, ps2))
      else
        (case consume_positionals np ps ts of
           (taken, ps1, n) \<Rightarrow>
             if 0 < n then
               (case consume np args ps1 (drop n ts) of
                  (steps, ps2) \<Rightarrow> (taken @ steps, ps2))
             else
               (case consume np args ps1 (tl (dropWhile (\<lambda>t. \<not> is_O t) ts)) of
                  (steps, ps2) \<Rightarrow>
                    (taken @ map (\<lambda>t. Extra (fst t)) (takeWhile (\<lambda>t. \<not> is_O t) ts) @
                     consume_optional args (hd (dropWhile (\<lambda>t. \<not> is_O t) ts)) @ steps, ps2))))"
  by pat_completeness auto
termination
proof (relation "measure (\<lambda>(np, args, ps, ts). length ts)", goal_cases)
  case 1
  show ?case by simp
next
  case (2 np args ps ts)
  then show ?case by (cases ts) simp_all
next
  case (3 np args ps ts x y xa ya)
  then have "ts \<noteq> []" by auto
  with 3 show ?case by simp
next
  case (4 np args ps ts)
  then have "ts \<noteq> []" by auto
  moreover have "length (dropWhile (\<lambda>t. \<not> is_O t) ts) \<le> length ts"
    by (rule length_dropWhile_le)
  ultimately show ?case by (cases ts) (simp_all add: less_Suc_eq_le)
qed

subsection \<open>The grammar engine: taking the actions\<close>

text \<open>
  A \<^verbatim>\<open>Namespace\<close> is a dictionary from attribute names to values. The string written
  for a value by \<^verbatim>\<open>'%s'\<close> is \<open>str_of\<close>.
\<close>

type_synonym namespace = "(string \<times> pyval) list"

definition getattr :: "namespace \<Rightarrow> string \<Rightarrow> pyval option" where
  "getattr ns k = map_of ns k"

definition setattr :: "namespace \<Rightarrow> string \<Rightarrow> pyval \<Rightarrow> namespace" where
  "setattr ns k v = AList.update k v ns"

definition delattr :: "namespace \<Rightarrow> string \<Rightarrow> namespace" where
  "delattr ns k = AList.delete k ns"

fun str_of :: "pyval \<Rightarrow> string" where
  "str_of PNone = ''None''"
| "str_of (PBool b) = (if b then ''True'' else ''False'')"
| "str_of (PStr s) = s"
| "str_of (PList l) = ''['' @ join '', '' (map repr l) @ '']''"

fun truthy :: "pyval \<Rightarrow> bool" where
  "truthy PNone = False"
| "truthy (PBool b) = b"
| "truthy (PStr s) = (s \<noteq> [])"
| "truthy (PList l) = (l \<noteq> [])"

text \<open>
  The default of an action: \<^verbatim>\<open>False\<close> for \<^verbatim>\<open>store_true\<close>, \<^verbatim>\<open>None\<close> for
  \<^verbatim>\<open>store_const\<close> and for a positional; the help action has \<^verbatim>\<open>SUPPRESS\<close> as
  destination and default and leaves no attribute. \<^verbatim>\<open>parse_known_args\<close> sets the default
  of every action whose destination the namespace does not have yet.
\<close>

fun default_of :: "argument \<Rightarrow> pyval option" where
  "default_of (Optional_arg flags d Store_true h) = Some (PBool False)"
| "default_of (Optional_arg flags d (Store_const c) h) = Some PNone"
| "default_of (Optional_arg flags d Help_action h) = None"
| "default_of (Positional_arg n m na h) = Some PNone"

fun add_defaults :: "argument list \<Rightarrow> namespace \<Rightarrow> namespace" where
  "add_defaults [] ns = ns"
| "add_defaults (a # as) ns =
     add_defaults as
       (case default_of a of
          None \<Rightarrow> ns
        | Some d \<Rightarrow> if getattr ns (dest a) = None then setattr ns (dest a) d else ns)"

text \<open>
  \<^verbatim>\<open>_get_values\<close> for a positional. For \<^verbatim>\<open>'?'\<close> the first \<^verbatim>\<open>--\<close> is removed; no string
  gives the default, one string is the value. \<^verbatim>\<open>REMAINDER\<close> keeps every string.
\<close>

fun get_values :: "nargs \<Rightarrow> string list \<Rightarrow> pyval" where
  "get_values Optional arg_strings =
     (case remove1 ''--'' arg_strings of
        [] \<Rightarrow> PNone
      | [x] \<Rightarrow> PStr x
      | x # y # zs \<Rightarrow> PList (x # y # zs))"
| "get_values Remainder arg_strings = PList arg_strings"

text \<open>
  The call of an action object: \<^verbatim>\<open>store_true\<close> and \<^verbatim>\<open>store_const\<close> set their constant,
  the help action prints the help of its parser and exits with status 0, a positional
  stores its value.
\<close>

fun call_action ::
  "parser \<Rightarrow> argument \<Rightarrow> string list \<Rightarrow> namespace \<Rightarrow> world \<Rightarrow> (exc + namespace) \<times> world" where
  "call_action p (Optional_arg flags d Store_true h) arg_strings ns w =
     (Inr (setattr ns (dest (Optional_arg flags d Store_true h)) (PBool True)), w)"
| "call_action p (Optional_arg flags d (Store_const c) h) arg_strings ns w =
     (Inr (setattr ns (dest (Optional_arg flags d (Store_const c) h)) c), w)"
| "call_action p (Optional_arg flags d Help_action h) arg_strings ns w =
     (Inl (SystemExit 0), print_help p w)"
| "call_action p (Positional_arg n m na h) arg_strings ns w =
     (Inr (setattr ns n (get_values na arg_strings)), w)"

text \<open>
  One step on the pair of namespace and extras. An \<^verbatim>\<open>ArgumentError\<close> is caught by
  \<^verbatim>\<open>parse_known_args\<close> of the same parser, which calls \<^verbatim>\<open>self.error(str(err))\<close>.
\<close>

definition argument_error_text :: "string \<Rightarrow> string \<Rightarrow> string" where
  "argument_error_text argument_name message = ''argument '' @ argument_name @ '': '' @ message"

fun sub_step ::
  "parser \<Rightarrow> argument step \<Rightarrow> namespace \<times> string list \<Rightarrow> world \<Rightarrow>
   (exc + namespace \<times> string list) \<times> world" where
  "sub_step p (Take_optional a os) (ns, extras) w =
     (case call_action p a [] ns w of
        (Inl e, w1) \<Rightarrow> (Inl e, w1)
      | (Inr ns1, w1) \<Rightarrow> (Inr (ns1, extras), w1))"
| "sub_step p (Take_positional a arg_strings) (ns, extras) w =
     (case call_action p a arg_strings ns w of
        (Inl e, w1) \<Rightarrow> (Inl e, w1)
      | (Inr ns1, w1) \<Rightarrow> (Inr (ns1, extras), w1))"
| "sub_step p (Extra s) (ns, extras) w = (Inr (ns, extras @ [s]), w)"
| "sub_step p (Fail_argument a msg) (ns, extras) w =
     error p (argument_error_text (get_action_name a) msg) w"
| "sub_step p (Fail_exception e) (ns, extras) w = (Inl (Exception e), w)"

fun run_steps ::
  "('s \<Rightarrow> 'st \<Rightarrow> world \<Rightarrow> (exc + 'st) \<times> world) \<Rightarrow> 's list \<Rightarrow> 'st \<Rightarrow> world \<Rightarrow>
   (exc + 'st) \<times> world" where
  "run_steps act [] st w = (Inr st, w)"
| "run_steps act (s # ss) st w =
     (case act s st w of
        (Inl e, w1) \<Rightarrow> (Inl e, w1)
      | (Inr st1, w1) \<Rightarrow> run_steps act ss st1 w1)"

fun nargs_pattern :: "argument \<Rightarrow> atom list" where
  "nargs_pattern (Positional_arg n m Optional h) = pattern_optional"
| "nargs_pattern (Positional_arg n m Remainder h) = pattern_remainder"
| "nargs_pattern (Optional_arg flags d k h) = []"

fun is_positional :: "argument \<Rightarrow> bool" where
  "is_positional (Positional_arg n m na h) = True"
| "is_positional (Optional_arg flags d k h) = False"

text \<open>
  \<^verbatim>\<open>parse_known_args\<close> of a subparser: defaults, classification, the steps, and at the end
  \<^verbatim>\<open>self.error('too few arguments')\<close> when a positional was never matched. The result is
  the namespace and the strings not recognised.
\<close>

definition parse_known_args ::
  "parser \<Rightarrow> string list \<Rightarrow> namespace \<Rightarrow> world \<Rightarrow> (exc + namespace \<times> string list) \<times> world" where
  "parse_known_args p arg_strings ns w =
     (case classify (arguments p) arg_strings of
        Inl msg \<Rightarrow> error p msg w
      | Inr ts \<Rightarrow>
          (case consume nargs_pattern (arguments p) (filter is_positional (arguments p)) ts of
             (steps, positionals) \<Rightarrow>
               (case run_steps (sub_step p) steps (add_defaults (arguments p) ns, []) w of
                  (Inl e, w1) \<Rightarrow> (Inl e, w1)
                | (Inr st, w1) \<Rightarrow>
                    if positionals \<noteq> [] then error p ''too few arguments'' w1
                    else (Inr st, w1))))"

subsection \<open>The top-level parser\<close>

text \<open>The parser object behind a reference.\<close>

definition parser_at :: "registry \<Rightarrow> nat \<Rightarrow> parser option" where
  "parser_at r ref = (if ref < length (heap r) then Some (heap r ! ref) else None)"

text \<open>The arguments of the subparser of a registered command.\<close>

definition command_arguments :: "registry \<Rightarrow> string \<Rightarrow> argument list option" where
  "command_arguments r nm =
     (case get_command r nm of
        None \<Rightarrow> None
      | Some command \<Rightarrow> map_option arguments (parser_at r (subparser command)))"

definition unrecognized_args_attr :: string where
  "unrecognized_args_attr = ''_unrecognized_args''"

text \<open>
  The call of the subparsers action (\<^verbatim>\<open>_SubParsersAction.__call__\<close>) with the strings that
  the \<^verbatim>\<open>PARSER\<close> pattern matched. \<^verbatim>\<open>_get_values\<close> checks the first string against the
  registered names (\<^verbatim>\<open>invalid choice\<close>); the action stores it under \<^verbatim>\<open>command\<close>, lets
  the subparser of that name parse the rest into the same namespace, and keeps what the
  subparser did not recognise in the namespace for the top-level parser.
\<close>

definition call_subparsers ::
  "registry \<Rightarrow> string list \<Rightarrow> namespace \<Rightarrow> world \<Rightarrow> (exc + namespace) \<times> world" where
  "call_subparsers r arg_strings ns w =
     (case arg_strings of
        [] \<Rightarrow> (Inl (Exception ''list index out of range''), w)
      | parser_name # rest \<Rightarrow>
          (case map_of (name_parser_map r) parser_name of
             None \<Rightarrow>
               error (top_parser r)
                 (argument_error_text ''COMMAND''
                    (''invalid choice: '' @ repr parser_name @ '' (choose from '' @
                     join '', '' (map (\<lambda>(k, v). repr k) (name_parser_map r)) @ '')'')) w
           | Some ref \<Rightarrow>
               (case parser_at r ref of
                  None \<Rightarrow> (Inl (Exception ''no such parser object''), w)
                | Some p \<Rightarrow>
                    (case parse_known_args p rest (setattr ns ''command'' (PStr parser_name)) w of
                       (Inl e, w1) \<Rightarrow> (Inl e, w1)
                     | (Inr (ns1, unrecognized), w1) \<Rightarrow>
                         if unrecognized = [] then (Inr ns1, w1)
                         else
                           (Inr (setattr ns1 unrecognized_args_attr
                                   (PList ((case getattr ns1 unrecognized_args_attr of
                                              Some (PList l) \<Rightarrow> l
                                            | _ \<Rightarrow> []) @ unrecognized))), w1)))))"

fun top_step ::
  "registry \<Rightarrow> unit step \<Rightarrow> namespace \<times> string list \<Rightarrow> world \<Rightarrow>
   (exc + namespace \<times> string list) \<times> world" where
  "top_step r (Take_optional a os) (ns, extras) w =
     (case call_action (top_parser r) a [] ns w of
        (Inl e, w1) \<Rightarrow> (Inl e, w1)
      | (Inr ns1, w1) \<Rightarrow> (Inr (ns1, extras), w1))"
| "top_step r (Take_positional u arg_strings) (ns, extras) w =
     (case call_subparsers r arg_strings ns w of
        (Inl e, w1) \<Rightarrow> (Inl e, w1)
      | (Inr ns1, w1) \<Rightarrow> (Inr (ns1, extras), w1))"
| "top_step r (Extra s) (ns, extras) w = (Inr (ns, extras @ [s]), w)"
| "top_step r (Fail_argument a msg) (ns, extras) w =
     error (top_parser r) (argument_error_text (get_action_name a) msg) w"
| "top_step r (Fail_exception e) (ns, extras) w = (Inl (Exception e), w)"

text \<open>
  \<^verbatim>\<open>parse_known_args\<close> of the top-level parser. Its actions are \<^verbatim>\<open>-h\<close> and the
  subparsers action, a positional with destination \<^verbatim>\<open>command\<close> and default \<^verbatim>\<open>None\<close>.
\<close>

definition parse_known_args_top ::
  "registry \<Rightarrow> string list \<Rightarrow> world \<Rightarrow> (exc + namespace \<times> string list) \<times> world" where
  "parse_known_args_top r arg_strings w =
     (case classify (arguments (top_parser r)) arg_strings of
        Inl msg \<Rightarrow> error (top_parser r) msg w
      | Inr ts \<Rightarrow>
          (case consume (\<lambda>u. pattern_parser) (arguments (top_parser r)) [()] ts of
             (steps, positionals) \<Rightarrow>
               (case run_steps (top_step r) steps
                       (setattr (add_defaults (arguments (top_parser r)) []) ''command'' PNone, []) w of
                  (Inl e, w1) \<Rightarrow> (Inl e, w1)
                | (Inr (ns, extras), w1) \<Rightarrow>
                    if positionals \<noteq> [] then error (top_parser r) ''too few arguments'' w1
                    else
                      (case getattr ns unrecognized_args_attr of
                         Some (PList l) \<Rightarrow> (Inr (delattr ns unrecognized_args_attr, extras @ l), w1)
                       | _ \<Rightarrow> (Inr (ns, extras), w1)))))"

text \<open>\<^verbatim>\<open>parser.parse_args()\<close> on the process arguments \<^verbatim>\<open>sys.argv[1:]\<close>.\<close>

definition parse_args :: "registry \<Rightarrow> string list \<Rightarrow> world \<Rightarrow> (exc + namespace) \<times> world" where
  "parse_args r args w =
     (case parse_known_args_top r args w of
        (Inl e, w1) \<Rightarrow> (Inl e, w1)
      | (Inr (ns, argv), w1) \<Rightarrow>
          if argv \<noteq> [] then
            error (top_parser r) (''unrecognized arguments: '' @ join '' '' argv) w1
          else (Inr ns, w1))"

subsection \<open>The dispatcher\<close>

definition attribute_error :: "string \<Rightarrow> exc" where
  "attribute_error k =
     Exception ([CHR 0x27] @ ''Namespace'' @ [CHR 0x27] @ '' object has no attribute '' @ repr k)"

text \<open>
  \<^verbatim>\<open>do_help\<close>, the callback of the \<^verbatim>\<open>help\<close> command; it reads \<^verbatim>\<open>parser\<close> and
  \<^verbatim>\<open>all_commands\<close> of the enclosing \<^verbatim>\<open>run_karton\<close>.
\<close>

definition do_help :: "registry \<Rightarrow> namespace \<Rightarrow> world \<Rightarrow> (exc + unit) \<times> world" where
  "do_help r help_parsed_args w =
     (case getattr help_parsed_args ''sub_command'' of
        None \<Rightarrow> (Inl (attribute_error ''sub_command''), w)
      | Some PNone \<Rightarrow> (Inr (), print_help (top_parser r) w)
      | Some (PList l) \<Rightarrow> (Inl (Exception (''unhashable type: '' @ repr ''list'')), w)
      | Some sub_command_name \<Rightarrow>
          (case (case sub_command_name of PStr nm \<Rightarrow> get_command r nm | _ \<Rightarrow> None) of
             None \<Rightarrow>
               die ([dquote] @ str_of sub_command_name @ [dquote] @ '' is not a Karton command. '' @
                    ''Try '' @ [dquote] @ ''karton help'' @ [dquote] @
                    '' to list the available commands.'') w
           | Some command \<Rightarrow>
               (case parser_at r (subparser command) of
                  None \<Rightarrow> (Inl (Exception ''no such parser object''), w)
                | Some p \<Rightarrow> (Inr (), print_help p w))))"

text \<open>
  The callbacks \<^verbatim>\<open>do_run\<close>, \<^verbatim>\<open>do_shell\<close>, \<^verbatim>\<open>do_start\<close>, \<^verbatim>\<open>do_stop\<close>, \<^verbatim>\<open>do_status\<close> and
  \<^verbatim>\<open>do_build\<close> are the handlers that the dispatcher is written for; in \<^verbatim>\<open>main.py\<close> their
  bodies are \<^verbatim>\<open>pass\<close>. The dispatcher takes what they do as a parameter: a handler gets
  the parsed arguments, may change the world, and returns or raises (also
  \<^verbatim>\<open>KeyboardInterrupt\<close>, when the user interrupts it).
\<close>

type_synonym handlers = "callback \<Rightarrow> namespace \<Rightarrow> world \<Rightarrow> (exc + unit) \<times> world"

definition pass_handlers :: handlers where
  "pass_handlers cb parsed_args w = (Inr (), w)"

text \<open>A handler that raises the given exception, whatever the command.\<close>

definition raising_handlers :: "exc \<Rightarrow> handlers" where
  "raising_handlers e cb parsed_args w = (Inl e, w)"

definition call_callback ::
  "handlers \<Rightarrow> registry \<Rightarrow> callback \<Rightarrow> namespace \<Rightarrow> world \<Rightarrow> (exc + unit) \<times> world" where
  "call_callback h r cb parsed_args w =
     (if cb = Do_help then do_help r parsed_args w else h cb parsed_args w)"

text \<open>The statements of \<^verbatim>\<open>run_karton\<close> after the grammar is built.\<close>

definition dispatch ::
  "handlers \<Rightarrow> registry \<Rightarrow> string list \<Rightarrow> world \<Rightarrow> (exc + unit) \<times> world" where
  "dispatch h r argv w =
     (case parse_args r argv w of
        (Inl e, w1) \<Rightarrow> (Inl e, w1)
      | (Inr parsed_args, w1) \<Rightarrow>
          (case getattr parsed_args ''verbose'' of
             None \<Rightarrow> (Inl (attribute_error ''verbose''), w1)
           | Some v \<Rightarrow>
               (let w2 = set_verbose (truthy v) w1 in
                case getattr parsed_args ''command'' of
                  None \<Rightarrow> (Inl (attribute_error ''command''), w2)
                | Some c \<Rightarrow>
                    (case (case c of PStr nm \<Rightarrow> get_command r nm | _ \<Rightarrow> None) of
                       None \<Rightarrow>
                         die (''Invalid command '' @ [dquote] @ str_of c @ [dquote] @
                              ''. This should not happen.'') w2
                     | Some command \<Rightarrow> call_callback h r (callback command) parsed_args w2))))"

definition run_karton_with :: "handlers \<Rightarrow> string list \<Rightarrow> world \<Rightarrow> (exc + unit) \<times> world" where
  "run_karton_with h argv w =
     (case build_registry of
        Inl e \<Rightarrow> (Inl e, w)
      | Inr r \<Rightarrow> dispatch h r argv w)"

definition run_karton :: "string list \<Rightarrow> world \<Rightarrow> (exc + unit) \<times> world" where
  "run_karton argv w = run_karton_with pass_handlers argv w"

subsection \<open>The fault boundary\<close>

definition internal_error_msg :: "string \<Rightarrow> string" where
  "internal_error_msg e =
     ''Internal error!'' @ [newline] @ ''Got exception: '' @ [dquote] @ e @ [dquote] @ ''.'' @ [newline]"

text \<open>
  \<^verbatim>\<open>main\<close>: the \<^verbatim>\<open>try\<close> around \<^verbatim>\<open>run_karton()\<close> with its two handlers and the final
  \<^verbatim>\<open>raise SystemExit(0)\<close>. \<^verbatim>\<open>SystemExit\<close> is caught by neither handler.
\<close>

definition main_with :: "handlers \<Rightarrow> string list \<Rightarrow> world \<Rightarrow> (exc + unit) \<times> world" where
  "main_with h argv w =
     (case run_karton_with h argv w of
        (Inr u, w1) \<Rightarrow> (Inl (SystemExit 0), w1)
      | (Inl KeyboardInterrupt, w1) \<Rightarrow>
          (Inl (SystemExit 1), info ([newline] @ ''Interrupted.'') w1)
      | (Inl (Exception e), w1) \<Rightarrow>
          (if get_verbose w1 then (Inl (Exception e), verbose (internal_error_msg e) w1)
           else die (internal_error_msg e) w1)
      | (Inl (SystemExit code), w1) \<Rightarrow> (Inl (SystemExit code), w1))"

definition main :: "string list \<Rightarrow> world \<Rightarrow> (exc + unit) \<times> world" where
  "main argv w = main_with pass_handlers argv w"

text \<open>
  The script, \<^verbatim>\<open>if __name__ == '__main__': main()\<close>, as the interpreter ends it: the
  exit status of a \<^verbatim>\<open>SystemExit\<close> is its code, any other exception that leaves \<^verbatim>\<open>main\<close>
  is printed with its traceback and the status is 1.
\<close>

definition script_with :: "handlers \<Rightarrow> string list \<Rightarrow> world \<Rightarrow> int \<times> world" where
  "script_with h argv w =
     (case main_with h argv w of
        (Inr u, w1) \<Rightarrow> (0, w1)
      | (Inl (SystemExit code), w1) \<Rightarrow> (code, w1)
      | (Inl e, w1) \<Rightarrow> (1, emit (Traceback e) w1))"

definition script :: "string list \<Rightarrow> world \<Rightarrow> int \<times> world" where
  "script argv w = script_with pass_handlers argv w"

subsection \<open>Strings read as arguments\<close>

text \<open>
  A parser reads a string as an argument when the string is not the separator \<^verbatim>\<open>--\<close> and
  \<^verbatim>\<open>_parse_optional\<close> returns \<^verbatim>\<open>None\<close> for it (class \<^verbatim>\<open>'A'\<close>).
\<close>

definition read_as_argument :: "argument list \<Rightarrow> string \<Rightarrow> bool" where
  "read_as_argument args s = (s \<noteq> ''--'' \<and> parse_optional args s = Inr CA)"

text \<open>The strings that the subparser of \<^verbatim>\<open>help\<close> reads as an argument.\<close>

definition help_takes_as_name :: "string \<Rightarrow> bool" where
  "help_takes_as_name s =
     (case command_arguments karton_registry ''help'' of
        None \<Rightarrow> False
      | Some args \<Rightarrow> read_as_argument args s)"

subsection \<open>Predicates for the invariants of the engine\<close>

text \<open>
  A list of steps takes only actions of a given kind: \<open>step_ok A B\<close> holds for a step
  that takes an option whose action satisfies \<open>A\<close>, or a positional that satisfies
  \<open>B\<close>, and for every step that takes no action.
\<close>

fun step_ok :: "(argument \<Rightarrow> bool) \<Rightarrow> ('p \<Rightarrow> bool) \<Rightarrow> 'p step \<Rightarrow> bool" where
  "step_ok A B (Take_optional a os) = A a"
| "step_ok A B (Take_positional p arg_strings) = B p"
| "step_ok A B s = True"

fun is_take_positional :: "'p step \<Rightarrow> bool" where
  "is_take_positional (Take_positional p arg_strings) = True"
| "is_take_positional s = False"

text \<open>
  An action that leaves the attributes \<^verbatim>\<open>command\<close> and \<^verbatim>\<open>verbose\<close> of the namespace as
  they should be: it does not store to \<^verbatim>\<open>command\<close>, and it stores to \<^verbatim>\<open>verbose\<close> only as
  a \<^verbatim>\<open>store_true\<close> flag.
\<close>

fun keeps :: "argument \<Rightarrow> bool" where
  "keeps (Optional_arg flags d Store_true h) =
     (dest (Optional_arg flags d Store_true h) \<noteq> ''command'')"
| "keeps (Optional_arg flags d (Store_const c) h) =
     (dest (Optional_arg flags d (Store_const c) h) \<noteq> ''command'' \<and>
      dest (Optional_arg flags d (Store_const c) h) \<noteq> ''verbose'')"
| "keeps (Optional_arg flags d Help_action h) = True"
| "keeps (Positional_arg n m na h) = (n \<noteq> ''command'' \<and> n \<noteq> ''verbose'')"

text \<open>The namespace has a Boolean under \<^verbatim>\<open>verbose\<close>, or nothing yet.\<close>

definition verbose_unset_or_bool :: "namespace \<Rightarrow> bool" where
  "verbose_unset_or_bool ns =
     (case getattr ns ''verbose'' of None \<Rightarrow> True | Some (PBool v) \<Rightarrow> True | Some x \<Rightarrow> False)"

definition verbose_bool :: "namespace \<Rightarrow> bool" where
  "verbose_bool ns = (case getattr ns ''verbose'' of Some (PBool v) \<Rightarrow> True | x \<Rightarrow> False)"

text \<open>
  Every parser object of the registry has only such actions, and has the \<^verbatim>\<open>-v\<close> flag
  that \<^verbatim>\<open>run_karton\<close> adds to every command.
\<close>

definition parsers_keep :: "registry \<Rightarrow> bool" where
  "parsers_keep r =
     list_all (\<lambda>p. list_all keeps (arguments p) \<and> verbose_argument \<in> set (arguments p)) (heap r)"

text \<open>
  The namespace of a parse in which the subparsers action was taken: a Boolean under
  \<^verbatim>\<open>verbose\<close> and, under \<^verbatim>\<open>command\<close>, a name that the subparsers action knows.
\<close>

definition command_chosen :: "registry \<Rightarrow> namespace \<Rightarrow> bool" where
  "command_chosen r ns =
     (verbose_bool ns \<and>
      (case getattr ns ''command'' of
         Some (PStr nm) \<Rightarrow> map_of (name_parser_map r) nm \<noteq> None
       | x \<Rightarrow> False))"

section \<open>Properties\<close>

subsection \<open>The grammar of the program\<close>

text \<open>
  Building the grammar raises nothing. The registry it leaves has the seven commands; every
  subparser has \<^verbatim>\<open>-h\<close> and \<^verbatim>\<open>-v\<close>, \<^verbatim>\<open>run\<close> and \<^verbatim>\<open>shell\<close> have the two \<^verbatim>\<open>cd\<close> flags.
\<close>

lemmas registry_defs = build_registry_def add_command_def add_parser_def new_registry_def
  add_argument_at_def add_argument_def add_to_every_command_def cd_args_def
  ArgumentParser_def option_string_actions_def startswith_def prog_name_def
  inferred_dest_def is_long_def help_argument_def verbose_argument_def

lemma build_registry_value:
  "build_registry = Inr
     \<lparr>top_parser =
        \<lparr>prog = ''karton'', description = karton_description, arguments = [help_argument],
         choices_actions =
           [(''run'', run_help), (''shell'', shell_help), (''start'', start_help),
            (''stop'', stop_help), (''status'', status_help), (''build'', build_help),
            (''help'', help_help)]\<rparr>,
      name_parser_map =
        [(''run'', 0), (''shell'', 1), (''start'', 2), (''stop'', 3), (''status'', 4),
         (''build'', 5), (''help'', 6)],
      heap =
        [\<lparr>prog = ''karton run'', description = run_description,
          arguments =
            [help_argument,
             Positional_arg ''remainder'' ''COMMANDS'' Remainder remainder_help,
             Optional_arg [''--no-cd''] (Some ''cd'') (Store_const (PStr ''no'')) no_cd_help,
             Optional_arg [''--auto-cd''] (Some ''cd'') (Store_const (PStr ''auto'')) auto_cd_help,
             verbose_argument],
          choices_actions = []\<rparr>,
         \<lparr>prog = ''karton shell'', description = shell_description,
          arguments =
            [help_argument,
             Optional_arg [''--no-cd''] (Some ''cd'') (Store_const (PStr ''no'')) no_cd_help,
             Optional_arg [''--auto-cd''] (Some ''cd'') (Store_const (PStr ''auto'')) auto_cd_help,
             verbose_argument],
          choices_actions = []\<rparr>,
         \<lparr>prog = ''karton start'', description = start_description,
          arguments = [help_argument, verbose_argument], choices_actions = []\<rparr>,
         \<lparr>prog = ''karton stop'', description = stop_description,
          arguments = [help_argument, verbose_argument], choices_actions = []\<rparr>,
         \<lparr>prog = ''karton status'', description = status_description,
          arguments = [help_argument, verbose_argument], choices_actions = []\<rparr>,
         \<lparr>prog = ''karton build'', description = build_description,
          arguments = [help_argument, verbose_argument], choices_actions = []\<rparr>,
         \<lparr>prog = ''karton help'', description = help_description,
          arguments =
            [help_argument,
             Positional_arg ''sub_command'' ''COMMAND'' Optional sub_command_help,
             verbose_argument],
          choices_actions = []\<rparr>],
      all_commands =
        [(''run'', \<lparr>name = ''run'', subparser = 0, callback = Do_run\<rparr>),
         (''shell'', \<lparr>name = ''shell'', subparser = 1, callback = Do_shell\<rparr>),
         (''start'', \<lparr>name = ''start'', subparser = 2, callback = Do_start\<rparr>),
         (''stop'', \<lparr>name = ''stop'', subparser = 3, callback = Do_stop\<rparr>),
         (''status'', \<lparr>name = ''status'', subparser = 4, callback = Do_status\<rparr>),
         (''build'', \<lparr>name = ''build'', subparser = 5, callback = Do_build\<rparr>),
         (''help'', \<lparr>name = ''help'', subparser = 6, callback = Do_help\<rparr>)]\<rparr>"
  by (simp add: registry_defs)

lemma build_registry_ok: "build_registry = Inr karton_registry"
  by (simp add: karton_registry_def build_registry_value)

lemmas karton_registry_value =
  karton_registry_def [unfolded build_registry_value sum.case]

lemmas engine_defs = parse_args_def parse_known_args_top_def parse_known_args_def
  call_subparsers_def parser_at_def consume_positionals_def match_partial_def
  pattern_parser_def pattern_optional_def pattern_remainder_def is_O_def parse_optional_def
  lookup_option_def option_string_actions_def get_option_tuples_def setattr_def getattr_def
  delattr_def unrecognized_args_attr_def help_argument_def verbose_argument_def error_def
  print_help_def emit_def startswith_def is_long_def inferred_dest_def split_eq_def
  negative_number_like_def has_negative_number_optionals_def argument_error_text_def
  argparse_error_def print_usage_stderr_def

lemmas dispatch_defs = run_karton_with_def build_registry_ok dispatch_def call_callback_def
  get_command_def set_verbose_def do_help_def die_def

lemmas main_defs = script_with_def main_with_def get_verbose_def info_def verbose_def die_def
  emit_def internal_error_msg_def

text \<open>Some runs of the dispatcher, evaluated.\<close>

lemma run_start:
  "run_karton_with h [''start''] w =
     h Do_start [(''command'', PStr ''start''), (''verbose'', PBool False)] (set_verbose False w)"
  by (simp add: dispatch_defs karton_registry_value engine_defs)

lemma run_start_verbose:
  "run_karton_with h [''start'', ''-v''] w =
     h Do_start [(''command'', PStr ''start''), (''verbose'', PBool True)] (set_verbose True w)"
  by (simp add: dispatch_defs karton_registry_value engine_defs)

subsection \<open>The fault boundary\<close>

text \<open>
  C1. Invoked with no process argument, the program prints the help of the top-level
  parser to standard output and ends with exit code 1; nothing else is printed, in
  particular no usage line and no error line on standard error. This holds whatever the
  handlers are.
\<close>

theorem no_arguments_help_exit_1:
  "script_with h [] w =
     (1, w\<lparr>trace := trace w @ [Stdout_help (top_parser karton_registry)]\<rparr>)"
  by (simp add: main_defs dispatch_defs karton_registry_value engine_defs)

text \<open>
  C3. When \<^verbatim>\<open>run_karton\<close> is interrupted (\<^verbatim>\<open>KeyboardInterrupt\<close>), the program emits the
  notice \<^verbatim>\<open>Interrupted.\<close> and nothing else, and ends with exit code 1: no traceback and
  no internal-error message, whether the verbosity state is on or off.
\<close>

theorem interrupt_notice_exit_1:
  assumes "run_karton_with h argv w = (Inl KeyboardInterrupt, w1)"
  shows "script_with h argv w =
           (1, w1\<lparr>trace := trace w1 @ [Log Info ([newline] @ ''Interrupted.'')]\<rparr>)"
  using assms by (simp add: main_defs)

theorem interrupt_notice_exit_1_witness:
  "run_karton_with (raising_handlers KeyboardInterrupt) [''start'', ''-v''] initial_world =
     (Inl KeyboardInterrupt, \<lparr>verbose_flag = True, trace = [Verbosity_set True]\<rparr>) \<and>
   script_with (raising_handlers KeyboardInterrupt) [''start'', ''-v''] initial_world =
     (1, \<lparr>verbose_flag = True,
         trace = [Verbosity_set True, Log Info ([newline] @ ''Interrupted.'')]\<rparr>) \<and>
   run_karton_with (raising_handlers KeyboardInterrupt) [''start''] initial_world =
     (Inl KeyboardInterrupt, \<lparr>verbose_flag = False, trace = [Verbosity_set False]\<rparr>) \<and>
   script_with (raising_handlers KeyboardInterrupt) [''start''] initial_world =
     (1, \<lparr>verbose_flag = False,
         trace = [Verbosity_set False, Log Info ([newline] @ ''Interrupted.'')]\<rparr>)"
proof -
  have a: "run_karton_with (raising_handlers KeyboardInterrupt) [''start'', ''-v''] initial_world =
             (Inl KeyboardInterrupt, \<lparr>verbose_flag = True, trace = [Verbosity_set True]\<rparr>)"
    by (simp add: run_start_verbose raising_handlers_def set_verbose_def emit_def
          initial_world_def)
  have b: "run_karton_with (raising_handlers KeyboardInterrupt) [''start''] initial_world =
             (Inl KeyboardInterrupt, \<lparr>verbose_flag = False, trace = [Verbosity_set False]\<rparr>)"
    by (simp add: run_start raising_handlers_def set_verbose_def emit_def initial_world_def)
  show ?thesis
    using a b interrupt_notice_exit_1 [OF a] interrupt_notice_exit_1 [OF b] by simp
qed




text \<open>
  C8. When \<^verbatim>\<open>run_karton\<close> returns, the exit code is 0. When it raises \<^verbatim>\<open>SystemExit\<close> with
  a code, \<^verbatim>\<open>main\<close> lets it pass and that code is the exit code: the final
  \<^verbatim>\<open>raise SystemExit(0)\<close> is not reached. The exit code is 0 only when \<^verbatim>\<open>run_karton\<close>
  returned or itself asked for 0.
\<close>

theorem one_exit_code:
  "(run_karton_with h argv w = (Inr u, w1) \<longrightarrow> script_with h argv w = (0, w1)) \<and>
   (run_karton_with h argv w = (Inl (SystemExit code), w1) \<longrightarrow>
      main_with h argv w = (Inl (SystemExit code), w1) \<and> script_with h argv w = (code, w1)) \<and>
   (fst (script_with h argv w) = 0 \<longleftrightarrow>
      fst (run_karton_with h argv w) = Inr () \<or>
      fst (run_karton_with h argv w) = Inl (SystemExit 0))"
proof -
  obtain r w' where rw: "run_karton_with h argv w = (r, w')"
    by (cases "run_karton_with h argv w")
  show ?thesis
  proof (cases r)
    case (Inl e)
    with rw show ?thesis by (cases e) (auto simp: main_defs)
  next
    case (Inr v)
    with rw show ?thesis by (auto simp: main_defs)
  qed
qed

theorem one_exit_code_witness:
  "run_karton_with pass_handlers [''start''] initial_world =
     (Inr (), \<lparr>verbose_flag = False, trace = [Verbosity_set False]\<rparr>) \<and>
   script_with pass_handlers [''start''] initial_world =
     (0, \<lparr>verbose_flag = False, trace = [Verbosity_set False]\<rparr>) \<and>
   run_karton_with (raising_handlers (SystemExit 3)) [''start''] initial_world =
     (Inl (SystemExit 3), \<lparr>verbose_flag = False, trace = [Verbosity_set False]\<rparr>) \<and>
   script_with (raising_handlers (SystemExit 3)) [''start''] initial_world =
     (3, \<lparr>verbose_flag = False, trace = [Verbosity_set False]\<rparr>)"
proof -
  have a: "run_karton_with pass_handlers [''start''] initial_world =
             (Inr (), \<lparr>verbose_flag = False, trace = [Verbosity_set False]\<rparr>)"
    by (simp add: run_start pass_handlers_def set_verbose_def emit_def initial_world_def)
  have b: "run_karton_with (raising_handlers (SystemExit 3)) [''start''] initial_world =
             (Inl (SystemExit 3), \<lparr>verbose_flag = False, trace = [Verbosity_set False]\<rparr>)"
    by (simp add: run_start raising_handlers_def set_verbose_def emit_def initial_world_def)
  show ?thesis
    using a b
      one_exit_code [of pass_handlers "[''start'']" initial_world "()"
        "\<lparr>verbose_flag = False, trace = [Verbosity_set False]\<rparr>"]
      one_exit_code [of "raising_handlers (SystemExit 3)" "[''start'']" initial_world _
        "\<lparr>verbose_flag = False, trace = [Verbosity_set False]\<rparr>" 3]
    by simp
qed

subsection \<open>The command registry\<close>

text \<open>
  C4, as the code has it. \<^verbatim>\<open>add_command\<close> never fails. After it the name retrieves the new
  entry, with a new subparser, also when the name was registered before: the new entry
  replaces the old one. Every other name retrieves what it retrieved before, so two
  commands registered under distinct names are both retrievable, each by its name.
\<close>

theorem add_command_registers:
  "fst (add_command n cb hl d r) = length (heap r) \<and>
   get_command (snd (add_command n cb hl d r)) n =
     Some \<lparr>name = n, subparser = length (heap r), callback = cb\<rparr> \<and>
   parser_at (snd (add_command n cb hl d r)) (length (heap r)) =
     Some (ArgumentParser (prog (top_parser r) @ '' '' @ n) d) \<and>
   (m \<noteq> n \<longrightarrow> get_command (snd (add_command n cb hl d r)) m = get_command r m) \<and>
   (n \<noteq> n2 \<longrightarrow>
      get_command (snd (add_command n2 cb2 hl2 d2 (snd (add_command n cb hl d r)))) n =
        Some \<lparr>name = n, subparser = length (heap r), callback = cb\<rparr> \<and>
      get_command (snd (add_command n2 cb2 hl2 d2 (snd (add_command n cb hl d r)))) n2 =
        Some \<lparr>name = n2, subparser = Suc (length (heap r)), callback = cb2\<rparr>)"
  by (simp add: add_command_def add_parser_def get_command_def parser_at_def update_conv'
        Let_def)

theorem add_command_registers_witness:
  "get_command (snd (add_command ''shell'' Do_shell shell_help shell_description
                  (snd (add_command ''run'' Do_run run_help run_description new_registry))))
     ''run'' = Some \<lparr>name = ''run'', subparser = 0, callback = Do_run\<rparr> \<and>
   get_command (snd (add_command ''shell'' Do_shell shell_help shell_description
                  (snd (add_command ''run'' Do_run run_help run_description new_registry))))
     ''shell'' = Some \<lparr>name = ''shell'', subparser = 1, callback = Do_shell\<rparr> \<and>
   get_command (snd (add_command ''run'' Do_run run_help run_description new_registry))
     ''shell'' = None"
  using add_command_registers
          [of "''run''" Do_run run_help run_description new_registry "''shell''" "''shell''"
              Do_shell shell_help shell_description]
  by (simp add: new_registry_def get_command_def)

text \<open>
  C4, as the claim states it, fails: registering \<^verbatim>\<open>run\<close> a second time raises nothing and
  the second entry takes the place of the first.
\<close>

theorem add_command_twice_replaces:
  "get_command (snd (add_command ''run'' Do_run run_help run_description new_registry))
     ''run'' = Some \<lparr>name = ''run'', subparser = 0, callback = Do_run\<rparr> \<and>
   get_command (snd (add_command ''run'' Do_shell shell_help shell_description
                  (snd (add_command ''run'' Do_run run_help run_description new_registry))))
     ''run'' = Some \<lparr>name = ''run'', subparser = 1, callback = Do_shell\<rparr> \<and>
   map_of (name_parser_map (snd (add_command ''run'' Do_shell shell_help shell_description
                  (snd (add_command ''run'' Do_run run_help run_description new_registry)))))
     ''run'' = Some 1"
  by (simp add: add_command_def add_parser_def get_command_def new_registry_def update_conv'
        Let_def)

text \<open>What \<^verbatim>\<open>add_argument\<close> and \<^verbatim>\<open>add_to_every_command\<close> leave when they raise nothing.\<close>

lemma add_argument_Inr:
  assumes "add_argument a p = Inr p'"
  shows "p' = p\<lparr>arguments := arguments p @ [a]\<rparr>"
  using assms
  by (auto simp: add_argument_def split: argument.splits list.splits if_splits)



lemma add_argument_at_Inr:
  assumes "add_argument_at a ref r = Inr r'"
  shows "ref < length (heap r) \<and> add_argument a (heap r ! ref) \<noteq> Inl e \<and>
         r' = r\<lparr>heap := (heap r)[ref := (heap r ! ref)\<lparr>arguments :=
                                           arguments (heap r ! ref) @ [a]\<rparr>]\<rparr>"
  using assms
  by (auto simp: add_argument_at_def split: if_splits sum.splits dest: add_argument_Inr)










subsection \<open>Shared arguments\<close>

lemma add_to_parser_other_object:
  assumes "add_to_parser sa target r = Inr r'" and "other \<noteq> target"
  shows "parser_at r' other = parser_at r other"
proof -
  obtain a where sa: "sa = SharedArgument a" by (cases sa)
  with assms(1) have "add_argument_at a target r = Inr r'" by simp
  from add_argument_at_Inr [OF this] assms(2) show ?thesis
    by (auto simp: parser_at_def)
qed


subsection \<open>The help command\<close>

lemma get_command_help:
  "get_command karton_registry ''help'' = Some \<lparr>name = ''help'', subparser = 6, callback = Do_help\<rparr>"
  by (simp add: get_command_def karton_registry_value)

lemma word_not_option:
  assumes "nm = [] \<or> hd nm \<noteq> CHR ''-''"
  shows "nm \<noteq> CHR ''-'' # t" and "CHR ''-'' # t \<noteq> nm"
  using assms by auto

lemma parse_optional_word:
  assumes "nm = [] \<or> hd nm \<noteq> CHR ''-''"
  shows "parse_optional args nm = Inr CA"
  using assms by (auto simp: parse_optional_def)

text \<open>
  A string that a parser reads as an argument is read as an argument by the parser that
  has only the first of its argument definitions: an option string of the smaller parser
  is one of the larger.
\<close>

lemma option_string_actions_Cons:
  "option_string_actions (a # rest) = option_string_actions [a] @ option_string_actions rest"
  by (simp add: option_string_actions_def)

lemma lookup_option_first:
  assumes "lookup_option (a # rest) x = None"
  shows "lookup_option [a] x = None"
  using assms unfolding lookup_option_def option_string_actions_Cons [of a rest]
  by (simp add: map_add_None)

lemma get_option_tuples_Cons:
  "get_option_tuples (a # rest) s = get_option_tuples [a] s @ get_option_tuples rest s"
  unfolding get_option_tuples_def option_string_actions_Cons [of a rest]
  by (simp add: Let_def)

lemma get_option_tuples_not_CA:
  "CA \<notin> set (get_option_tuples args s)"
  by (auto simp: get_option_tuples_def Let_def split: if_splits)

lemma has_negative_number_optionals_first:
  assumes "\<not> has_negative_number_optionals (a # rest)"
  shows "\<not> has_negative_number_optionals [a]"
  using assms unfolding has_negative_number_optionals_def option_string_actions_Cons [of a rest]
  by simp

lemma parse_optional_first:
  assumes ca: "parse_optional (a # rest) s = Inr CA"
    and neg: "\<not> has_negative_number_optionals (a # rest)"
  shows "parse_optional [a] s = Inr CA"
proof (cases "s = [] \<or> hd s \<noteq> CHR ''-''")
  case True
  then show ?thesis by (rule parse_optional_word)
next
  case False
  then have s: "s \<noteq> []" "hd s = CHR ''-''" by simp_all
  from ca s have l2: "lookup_option (a # rest) s = None"
    by (auto simp: parse_optional_def split: option.splits)
  then have l1: "lookup_option [a] s = None" by (rule lookup_option_first)
  show ?thesis
  proof (cases "length s = 1")
    case True
    with s l1 show ?thesis by (simp add: parse_optional_def)
  next
    case False
    from ca s l2 False have
      e2: "(if CHR ''='' \<in> set s then lookup_option (a # rest) (fst (split_eq s)) else None) = None"
      by (auto simp: parse_optional_def split: option.splits if_splits)
    then have e1: "(if CHR ''='' \<in> set s then lookup_option [a] (fst (split_eq s)) else None) = None"
      by (auto split: if_splits dest: lookup_option_first)
    from get_option_tuples_not_CA [of "a # rest" s]
    have no_single: "get_option_tuples (a # rest) s \<noteq> [CA]" by auto
    from ca s l2 False e2 have t2: "get_option_tuples (a # rest) s = []"
      using get_option_tuples_not_CA [of "a # rest" s]
      by (auto simp: parse_optional_def split: list.splits)
    then have t1: "get_option_tuples [a] s = []"
      by (simp add: get_option_tuples_Cons [of a rest])
    from ca s l2 False e2 t2 have
      rest2: "(if negative_number_like s \<and> \<not> has_negative_number_optionals (a # rest)
               then Inr CA
               else if CHR '' '' \<in> set s then Inr CA else Inr (CO None s None)) =
              (Inr CA :: string + cls)"
      by (simp add: parse_optional_def)
    have n1: "\<not> has_negative_number_optionals [a]"
      using neg by (rule has_negative_number_optionals_first)
    from rest2 neg n1 have
      "(if negative_number_like s \<and> \<not> has_negative_number_optionals [a]
        then Inr CA
        else if CHR '' '' \<in> set s then Inr CA else Inr (CO None s None)) =
       (Inr CA :: string + cls)"
      by simp
    with s l1 False e1 t1 show ?thesis
      by (simp add: parse_optional_def)
  qed
qed

lemma help_arguments:
  "command_arguments karton_registry ''help'' =
     Some [help_argument,
           Positional_arg ''sub_command'' ''COMMAND'' Optional sub_command_help,
           verbose_argument]"
  by (simp add: command_arguments_def get_command_def parser_at_def karton_registry_value)

lemma help_takes_as_name_iff:
  "help_takes_as_name s \<longleftrightarrow>
     s \<noteq> ''--'' \<and>
     parse_optional [help_argument,
                     Positional_arg ''sub_command'' ''COMMAND'' Optional sub_command_help,
                     verbose_argument] s = Inr CA"
  by (simp add: help_takes_as_name_def help_arguments read_as_argument_def)

text \<open>
  Names that \<^verbatim>\<open>help\<close> takes: every string that is empty or does not start with \<^verbatim>\<open>-\<close>, and
  some that do, as \<^verbatim>\<open>-\<close> and \<^verbatim>\<open>-1\<close>. Strings that it does not take: \<^verbatim>\<open>--\<close>, the options
  and their abbreviations, and \<^verbatim>\<open>-x\<close>, which it reads as an option that it does not have.
\<close>

lemma help_takes_word:
  assumes "nm = [] \<or> hd nm \<noteq> CHR ''-''"
  shows "help_takes_as_name nm"
  using assms word_not_option [OF assms]
  by (simp add: help_takes_as_name_iff parse_optional_word)

lemma help_takes_examples:
  "help_takes_as_name ''-''" "help_takes_as_name ''-1''" "help_takes_as_name ''bogus''"
  "\<not> help_takes_as_name ''--''" "\<not> help_takes_as_name ''-x''"
  "\<not> help_takes_as_name ''-v''" "\<not> help_takes_as_name ''--verb''"
  "\<not> help_takes_as_name ''-h''"
  by (simp_all add: help_takes_as_name_iff engine_defs newline_def is_digit_def)

lemma parse_optional_flags:
  "parse_optional [help_argument] ''help'' = Inr CA"
  "parse_optional [help_argument] ''-v'' = Inr (CO None ''-v'' None)"
  "parse_optional [help_argument] ''--verbose'' = Inr (CO None ''--verbose'' None)"
  "parse_optional [help_argument,
                   Positional_arg ''sub_command'' ''COMMAND'' Optional sub_command_help,
                   verbose_argument] ''-v'' = Inr (CO (Some verbose_argument) ''-v'' None)"
  "parse_optional [help_argument,
                   Positional_arg ''sub_command'' ''COMMAND'' Optional sub_command_help,
                   verbose_argument] ''--verbose'' =
     Inr (CO (Some verbose_argument) ''--verbose'' None)"
  by (simp_all add: engine_defs newline_def is_digit_def)

lemmas engine_defs_symbolic = parse_args_def parse_known_args_top_def parse_known_args_def
  call_subparsers_def parser_at_def consume_positionals_def match_partial_def
  pattern_parser_def pattern_optional_def pattern_remainder_def is_O_def
  lookup_option_def option_string_actions_def setattr_def getattr_def
  delattr_def unrecognized_args_attr_def help_argument_def verbose_argument_def error_def
  print_help_def emit_def startswith_def is_long_def inferred_dest_def
  argument_error_text_def argparse_error_def print_usage_stderr_def
  parse_optional_flags [unfolded help_argument_def verbose_argument_def]

lemma help_parse:
  assumes name: "help_takes_as_name nm"
    and vs: "vs \<in> {[], [''-v''], [''--verbose'']}"
  shows "parse_args karton_registry (''help'' # nm # vs) w =
           (Inr [(''command'', PStr ''help''), (''sub_command'', PStr nm),
                 (''verbose'', PBool (vs \<noteq> []))], w)"
    and "parse_args karton_registry (''help'' # vs @ [nm]) w =
           (Inr [(''command'', PStr ''help''), (''sub_command'', PStr nm),
                 (''verbose'', PBool (vs \<noteq> []))], w)"
proof -
  from name have ne: "nm \<noteq> ''--''" "''--'' \<noteq> nm"
    and sub: "parse_optional [help_argument,
                 Positional_arg ''sub_command'' ''COMMAND'' Optional sub_command_help,
                 verbose_argument] nm = Inr CA"
    by (auto simp: help_takes_as_name_iff)
  have "\<not> has_negative_number_optionals [help_argument,
                 Positional_arg ''sub_command'' ''COMMAND'' Optional sub_command_help,
                 verbose_argument]"
    by (simp add: engine_defs newline_def is_digit_def)
  with sub have top: "parse_optional [help_argument] nm = Inr CA"
    by (rule parse_optional_first)
  note facts = ne sub [unfolded help_argument_def verbose_argument_def]
    top [unfolded help_argument_def]
  have a: "parse_args karton_registry [''help'', nm] w =
             (Inr [(''command'', PStr ''help''), (''sub_command'', PStr nm),
                   (''verbose'', PBool False)], w)"
    using facts by (simp add: karton_registry_value engine_defs_symbolic)
  have b: "parse_args karton_registry [''help'', nm, ''-v''] w =
             (Inr [(''command'', PStr ''help''), (''sub_command'', PStr nm),
                   (''verbose'', PBool True)], w)"
    using facts by (simp add: karton_registry_value engine_defs_symbolic)
  have c: "parse_args karton_registry [''help'', nm, ''--verbose''] w =
             (Inr [(''command'', PStr ''help''), (''sub_command'', PStr nm),
                   (''verbose'', PBool True)], w)"
    using facts by (simp add: karton_registry_value engine_defs_symbolic)
  have d: "parse_args karton_registry [''help'', ''-v'', nm] w =
             (Inr [(''command'', PStr ''help''), (''sub_command'', PStr nm),
                   (''verbose'', PBool True)], w)"
    using facts by (simp add: karton_registry_value engine_defs_symbolic)
  have e: "parse_args karton_registry [''help'', ''--verbose'', nm] w =
             (Inr [(''command'', PStr ''help''), (''sub_command'', PStr nm),
                   (''verbose'', PBool True)], w)"
    using facts by (simp add: karton_registry_value engine_defs_symbolic)
  from vs a b c show "parse_args karton_registry (''help'' # nm # vs) w =
           (Inr [(''command'', PStr ''help''), (''sub_command'', PStr nm),
                 (''verbose'', PBool (vs \<noteq> []))], w)"
    by auto
  from vs a d e show "parse_args karton_registry (''help'' # vs @ [nm]) w =
           (Inr [(''command'', PStr ''help''), (''sub_command'', PStr nm),
                 (''verbose'', PBool (vs \<noteq> []))], w)"
    by auto
qed

lemma help_parse_after_separator:
  assumes vs: "vs \<in> {[], [''-v''], [''--verbose'']}"
  shows "parse_args karton_registry (''help'' # vs @ [''--'', nm]) w =
           (Inr [(''command'', PStr ''help''), (''sub_command'', PStr nm),
                 (''verbose'', PBool (vs \<noteq> []))], w)"
proof -
  have a: "parse_args karton_registry [''help'', ''--'', nm] w =
             (Inr [(''command'', PStr ''help''), (''sub_command'', PStr nm),
                   (''verbose'', PBool False)], w)"
    by (simp add: karton_registry_value engine_defs_symbolic)
  have b: "parse_args karton_registry [''help'', ''-v'', ''--'', nm] w =
             (Inr [(''command'', PStr ''help''), (''sub_command'', PStr nm),
                   (''verbose'', PBool True)], w)"
    by (simp add: karton_registry_value engine_defs_symbolic)
  have c: "parse_args karton_registry [''help'', ''--verbose'', ''--'', nm] w =
             (Inr [(''command'', PStr ''help''), (''sub_command'', PStr nm),
                   (''verbose'', PBool True)], w)"
    by (simp add: karton_registry_value engine_defs_symbolic)
  from vs a b c show ?thesis by auto
qed

lemma registered_parser:
  assumes "get_command karton_registry nm = Some command"
  shows "\<exists>p. parser_at karton_registry (subparser command) = Some p \<and>
             prog p = ''karton '' @ nm"
  using assms
  by (auto simp: get_command_def parser_at_def karton_registry_value split: if_splits)

lemma registered_names:
  "get_command karton_registry nm = None \<longleftrightarrow>
     nm \<notin> set [''run'', ''shell'', ''start'', ''stop'', ''status'', ''build'', ''help'']"
  by (simp add: get_command_def karton_registry_value)

text \<open>
  C5, as the code has it. The invocation is \<^verbatim>\<open>help -- NAME\<close> with any string \<open>NAME\<close>, or
  \<^verbatim>\<open>help NAME\<close> with a string that the subparser of \<^verbatim>\<open>help\<close> reads as an argument (not
  as an option and not as the separator \<^verbatim>\<open>--\<close>), alone or with \<^verbatim>\<open>-v\<close> or \<^verbatim>\<open>--verbose\<close>.
  When \<open>NAME\<close> is not a registered command, the program emits through \<^verbatim>\<open>die\<close> one
  message that quotes the name and says
  \<^verbatim>\<open>Try "karton help" to list the available commands.\<close>, and ends with exit code 1;
  nothing else is printed, in particular no traceback, with the verbosity on or off. When
  \<open>NAME\<close> is registered, the program prints the help of the subparser of that command and
  ends with exit code 0. The registered names are the seven commands.
\<close>

theorem help_for_command:
  assumes argv:
      "help_takes_as_name nm \<and> (argv = ''help'' # nm # vs \<or> argv = ''help'' # vs @ [nm]) \<or>
       argv = ''help'' # vs @ [''--'', nm]"
    and vs: "vs \<in> {[], [''-v''], [''--verbose'']}"
  shows "(get_command karton_registry nm = None \<longrightarrow>
            script_with h argv w =
              (1, w\<lparr>verbose_flag := (vs \<noteq> []),
                     trace := trace w @
                       [Verbosity_set (vs \<noteq> []),
                        Log Error ([dquote] @ nm @ [dquote] @ '' is not a Karton command. '' @
                                   ''Try '' @ [dquote] @ ''karton help'' @ [dquote] @
                                   '' to list the available commands.'')]\<rparr>)) \<and>
         (\<forall>command. get_command karton_registry nm = Some command \<longrightarrow>
            (\<exists>p. parser_at karton_registry (subparser command) = Some p \<and>
                 prog p = ''karton '' @ nm \<and>
                 script_with h argv w =
                   (0, w\<lparr>verbose_flag := (vs \<noteq> []),
                          trace := trace w @
                            [Verbosity_set (vs \<noteq> []), Stdout_help p]\<rparr>))) \<and>
         (get_command karton_registry nm = None \<longleftrightarrow>
            nm \<notin> set [''run'', ''shell'', ''start'', ''stop'', ''status'', ''build'', ''help''])"
proof -
  have parse: "parse_args karton_registry argv w =
                 (Inr [(''command'', PStr ''help''), (''sub_command'', PStr nm),
                       (''verbose'', PBool (vs \<noteq> []))], w)"
    using argv help_parse [OF _ vs, of nm w] help_parse_after_separator [OF vs, of nm w]
    by auto
  have run: "run_karton_with h argv w =
               do_help karton_registry
                 [(''command'', PStr ''help''), (''sub_command'', PStr nm),
                  (''verbose'', PBool (vs \<noteq> []))]
                 (w\<lparr>verbose_flag := (vs \<noteq> []),
                    trace := trace w @ [Verbosity_set (vs \<noteq> [])]\<rparr>)"
    by (simp add: run_karton_with_def build_registry_ok dispatch_def parse getattr_def
          get_command_help call_callback_def set_verbose_def emit_def)
  have unknown: "script_with h argv w =
              (1, w\<lparr>verbose_flag := (vs \<noteq> []),
                     trace := trace w @
                       [Verbosity_set (vs \<noteq> []),
                        Log Error ([dquote] @ nm @ [dquote] @ '' is not a Karton command. '' @
                                   ''Try '' @ [dquote] @ ''karton help'' @ [dquote] @
                                   '' to list the available commands.'')]\<rparr>)"
    if "get_command karton_registry nm = None"
    using that
    by (simp add: script_with_def main_with_def run do_help_def getattr_def die_def emit_def)
  have known: "\<exists>p. parser_at karton_registry (subparser command) = Some p \<and>
                 prog p = ''karton '' @ nm \<and>
                 script_with h argv w =
                   (0, w\<lparr>verbose_flag := (vs \<noteq> []),
                          trace := trace w @
                            [Verbosity_set (vs \<noteq> []), Stdout_help p]\<rparr>)"
    if c: "get_command karton_registry nm = Some command" for command
  proof -
    from registered_parser [OF c] obtain p where
      p: "parser_at karton_registry (subparser command) = Some p" "prog p = ''karton '' @ nm"
      by blast
    have "script_with h argv w =
            (0, w\<lparr>verbose_flag := (vs \<noteq> []),
                   trace := trace w @ [Verbosity_set (vs \<noteq> []), Stdout_help p]\<rparr>)"
      using c p(1)
      by (simp add: script_with_def main_with_def run do_help_def getattr_def print_help_def
            emit_def)
    with p show ?thesis by blast
  qed
  show ?thesis
    using unknown known registered_names by blast
qed

theorem help_for_command_witness:
  "script_with pass_handlers [''help'', ''bogus'', ''-v''] initial_world =
     (1, \<lparr>verbose_flag = True,
         trace = [Verbosity_set True,
                  Log Error ([dquote] @ ''bogus'' @ [dquote] @ '' is not a Karton command. '' @
                             ''Try '' @ [dquote] @ ''karton help'' @ [dquote] @
                             '' to list the available commands.'')]\<rparr>) \<and>
   script_with pass_handlers [''help'', ''-1''] initial_world =
     (1, \<lparr>verbose_flag = False,
         trace = [Verbosity_set False,
                  Log Error ([dquote] @ ''-1'' @ [dquote] @ '' is not a Karton command. '' @
                             ''Try '' @ [dquote] @ ''karton help'' @ [dquote] @
                             '' to list the available commands.'')]\<rparr>) \<and>
   script_with pass_handlers [''help'', ''--'', ''-x''] initial_world =
     (1, \<lparr>verbose_flag = False,
         trace = [Verbosity_set False,
                  Log Error ([dquote] @ ''-x'' @ [dquote] @ '' is not a Karton command. '' @
                             ''Try '' @ [dquote] @ ''karton help'' @ [dquote] @
                             '' to list the available commands.'')]\<rparr>) \<and>
   script_with pass_handlers [''help'', ''run''] initial_world =
     (0, \<lparr>verbose_flag = False,
         trace = [Verbosity_set False, Stdout_help (heap karton_registry ! 0)]\<rparr>)"
proof -
  have v: "[''-v''] \<in> {[], [''-v''], [''--verbose'']}" "[] \<in> {[], [''-v''], [''--verbose'']}"
    by simp_all
  have none: "get_command karton_registry ''bogus'' = None"
    "get_command karton_registry ''-1'' = None" "get_command karton_registry ''-x'' = None"
    by (simp_all add: get_command_def karton_registry_value)
  have some: "get_command karton_registry ''run'' =
                Some \<lparr>name = ''run'', subparser = 0, callback = Do_run\<rparr>"
    by (simp add: get_command_def karton_registry_value)
  have at: "parser_at karton_registry 0 = Some (heap karton_registry ! 0)"
    by (simp add: parser_at_def karton_registry_value)
  have a1: "help_takes_as_name ''bogus'' \<and>
              ([''help'', ''bogus'', ''-v''] = ''help'' # ''bogus'' # [''-v''] \<or>
               [''help'', ''bogus'', ''-v''] = ''help'' # [''-v''] @ [''bogus'']) \<or>
            [''help'', ''bogus'', ''-v''] = ''help'' # [''-v''] @ [''--'', ''bogus'']"
    using help_takes_examples(3) by simp
  have a2: "help_takes_as_name ''-1'' \<and>
              ([''help'', ''-1''] = ''help'' # ''-1'' # [] \<or>
               [''help'', ''-1''] = ''help'' # [] @ [''-1'']) \<or>
            [''help'', ''-1''] = ''help'' # [] @ [''--'', ''-1'']"
    using help_takes_examples(2) by simp
  have a3: "help_takes_as_name ''-x'' \<and>
              ([''help'', ''--'', ''-x''] = ''help'' # ''-x'' # [] \<or>
               [''help'', ''--'', ''-x''] = ''help'' # [] @ [''-x'']) \<or>
            [''help'', ''--'', ''-x''] = ''help'' # [] @ [''--'', ''-x'']"
    by simp
  have a4: "help_takes_as_name ''run'' \<and>
              ([''help'', ''run''] = ''help'' # ''run'' # [] \<or>
               [''help'', ''run''] = ''help'' # [] @ [''run'']) \<or>
            [''help'', ''run''] = ''help'' # [] @ [''--'', ''run'']"
    using help_takes_word [of "''run''"] by simp
  show ?thesis
    using none some at
      help_for_command [OF a1 v(1), of pass_handlers initial_world]
      help_for_command [OF a2 v(2), of pass_handlers initial_world]
      help_for_command [OF a3 v(2), of pass_handlers initial_world]
      help_for_command [OF a4 v(2), of pass_handlers initial_world]
    by (simp add: initial_world_def)
qed

text \<open>
  C5, as the claim states it, fails for a name that the parser reads as an option.
  \<^verbatim>\<open>-x\<close> and \<^verbatim>\<open>--verb\<close> are not registered commands. \<^verbatim>\<open>help -x\<close> ends as a usage error:
  the usage and \<^verbatim>\<open>unrecognized arguments: -x\<close> on standard error, exit code 2, and nothing
  that suggests \<^verbatim>\<open>help\<close>. \<^verbatim>\<open>help --verb\<close> is \<^verbatim>\<open>help --verbose\<close>: it prints the help of the
  program and ends with exit code 0.
\<close>

theorem help_with_option_like_name:
  "get_command karton_registry ''-x'' = None \<and>
   script_with pass_handlers [''help'', ''-x''] initial_world =
     (2, \<lparr>verbose_flag = False,
         trace = [Stderr_usage (top_parser karton_registry),
                  Stderr_text (''karton: error: unrecognized arguments: -x'' @ [newline])]\<rparr>) \<and>
   get_command karton_registry ''--verb'' = None \<and>
   script_with pass_handlers [''help'', ''--verb''] initial_world =
     (0, \<lparr>verbose_flag = True,
         trace = [Verbosity_set True, Stdout_help (top_parser karton_registry)]\<rparr>)"
proof -
  have a: "get_command karton_registry ''-x'' = None"
    "get_command karton_registry ''--verb'' = None"
    by (simp_all add: get_command_def karton_registry_value)
  have b: "script_with pass_handlers [''help'', ''-x''] initial_world =
     (2, \<lparr>verbose_flag = False,
         trace = [Stderr_usage (top_parser karton_registry),
                  Stderr_text (''karton: error: unrecognized arguments: -x'' @ [newline])]\<rparr>)"
    by (simp add: main_defs dispatch_defs karton_registry_value engine_defs initial_world_def
          newline_def is_digit_def)
  have c: "script_with pass_handlers [''help'', ''--verb''] initial_world =
     (0, \<lparr>verbose_flag = True,
         trace = [Verbosity_set True, Stdout_help (top_parser karton_registry)]\<rparr>)"
    by (simp add: main_defs dispatch_defs karton_registry_value engine_defs initial_world_def
          newline_def is_digit_def)
  show ?thesis
    using a b c by simp
qed

subsection \<open>What the engine guarantees when it returns\<close>

lemma lookup_option_mem:
  assumes "lookup_option args s = Some a"
  shows "a \<in> set args"
  using assms
  by (auto simp: lookup_option_def option_string_actions_def dest!: map_of_SomeD)

lemma get_option_tuples_mem:
  assumes "CO (Some a) os e \<in> set (get_option_tuples args s)"
  shows "a \<in> set args"
  using assms
  by (auto simp: get_option_tuples_def option_string_actions_def Let_def split: if_splits)

lemma parse_optional_mem:
  assumes "parse_optional args s = Inr (CO (Some a) os e)"
  shows "a \<in> set args"
proof -
  have one: "a \<in> set args" if "get_option_tuples args s = [CO (Some a) os e]"
    using get_option_tuples_mem [of a os e args s] that by simp
  show ?thesis
    using assms one
    by (auto simp: parse_optional_def split: if_splits option.splits list.splits
          dest: lookup_option_mem)
qed

lemma classify_mem:
  "classify args ss = Inr ts \<Longrightarrow> (s, CO (Some a) os e) \<in> set ts \<Longrightarrow> a \<in> set args"
proof (induction ss arbitrary: ts)
  case Nil
  then show ?case by simp
next
  case (Cons x ss)
  show ?case
  proof (cases "x = ''--''")
    case True
    with Cons.prems show ?thesis by auto
  next
    case False
    with Cons.prems obtain c cs where
      c: "parse_optional args x = Inr c" and cs: "classify args ss = Inr cs"
      and ts: "ts = (x, c) # cs"
      by (auto split: sum.splits)
    from Cons.prems(2) ts consider "(s, CO (Some a) os e) = (x, c)" | "(s, CO (Some a) os e) \<in> set cs"
      by auto
    then show ?thesis
    proof cases
      case 1
      with c show ?thesis by (auto dest: parse_optional_mem)
    next
      case 2
      with Cons.IH [OF cs] show ?thesis by blast
    qed
  qed
qed

lemma step_ok_mono:
  assumes "step_ok A B s" and "\<And>a. A a \<Longrightarrow> A' a" and "\<And>p. B p \<Longrightarrow> B' p"
  shows "step_ok A' B' s"
  using assms by (cases s) auto

lemma steps_ok_mono:
  assumes "list_all (step_ok A B) steps" and "\<And>a. A a \<Longrightarrow> A' a" and "\<And>p. B p \<Longrightarrow> B' p"
  shows "list_all (step_ok A' B') steps"
  using assms by (auto simp: list_all_iff intro: step_ok_mono)

lemma extras_ok:
  "list_all (step_ok A B) (map (\<lambda>t. Extra (fst t)) xs)"
  "\<not> list_ex is_take_positional (map (\<lambda>t. Extra (fst t)) xs)"
  by (simp_all add: list_all_iff list_ex_iff)

lemma consume_explicit_Inl:
  "consume_explicit args a os e = Inl f \<Longrightarrow> step_ok A B f \<and> \<not> is_take_positional f"
  by (induction args a os e rule: consume_explicit.induct)
     (auto split: if_splits option.splits sum.splits)

lemma consume_explicit_mem:
  "consume_explicit args a os e = Inr tuples \<Longrightarrow> a \<in> set args \<Longrightarrow>
     (a', s) \<in> set tuples \<Longrightarrow> a' \<in> set args"
  by (induction args a os e arbitrary: tuples rule: consume_explicit.induct)
     (auto split: if_splits option.splits sum.splits dest: lookup_option_mem
      | blast dest: lookup_option_mem)+

lemma consume_optional_ok:
  assumes "\<And>a os e. snd t = CO (Some a) os e \<Longrightarrow> a \<in> set args"
  shows "list_all (step_ok (\<lambda>a. a \<in> set args) B) (consume_optional args t :: 'p step list)"
    and "\<not> list_ex is_take_positional (consume_optional args t :: 'p step list)"
proof -
  obtain tok c where t: "t = (tok, c)" by (cases t)
  show "list_all (step_ok (\<lambda>a. a \<in> set args) B) (consume_optional args t :: 'p step list)"
  proof (cases c)
    case (CO x os e)
    show ?thesis
    proof (cases x)
      case None
      with t CO show ?thesis by simp
    next
      case (Some a)
      with assms t CO have a: "a \<in> set args" by simp
      show ?thesis
      proof (cases e)
        case None
        with t CO Some a show ?thesis by simp
      next
        case (Some ex)
        show ?thesis
        proof (cases "consume_explicit args a os ex :: 'p step + (argument \<times> string) list")
          case (Inl f)
          with consume_explicit_Inl [OF Inl] t CO \<open>x = Some a\<close> Some show ?thesis by simp
        next
          case (Inr tuples)
          with consume_explicit_mem [OF Inr a] t CO \<open>x = Some a\<close> Some show ?thesis
            by (auto simp: list_all_iff)
        qed
      qed
    qed
  qed (simp_all add: t)
  show "\<not> list_ex is_take_positional (consume_optional args t :: 'p step list)"
  proof (cases c)
    case (CO x os e)
    show ?thesis
    proof (cases x)
      case None
      with t CO show ?thesis by simp
    next
      case (Some a)
      show ?thesis
      proof (cases e)
        case None
        with t CO Some show ?thesis by simp
      next
        case (Some ex)
        show ?thesis
        proof (cases "consume_explicit args a os ex :: 'p step + (argument \<times> string) list")
          case (Inl f)
          with consume_explicit_Inl [OF Inl] t CO \<open>x = Some a\<close> Some show ?thesis by simp
        next
          case (Inr tuples)
          with t CO \<open>x = Some a\<close> Some show ?thesis
            by (auto simp: list_ex_iff case_prod_beta)
        qed
      qed
    qed
  qed (simp_all add: t)
qed

lemma take_slices_ok:
  "set ps \<subseteq> S \<Longrightarrow> list_all (step_ok A (\<lambda>p. p \<in> S)) (take_slices ps ns ts)"
  by (induction ps ns ts rule: take_slices.induct) auto

lemma take_slices_nonempty:
  "ps \<noteq> [] \<Longrightarrow> ns \<noteq> [] \<Longrightarrow> list_ex is_take_positional (take_slices ps ns ts)"
  by (cases ps; cases ns) simp_all

lemma consume_positionals_ok:
  assumes "consume_positionals np ps ts = (taken, ps1, n)"
  shows "list_all (step_ok A (\<lambda>p. p \<in> set ps)) taken"
    and "set ps1 \<subseteq> set ps"
    and "ps \<noteq> [] \<Longrightarrow> ps1 = [] \<Longrightarrow> list_ex is_take_positional taken"
proof -
  let ?counts = "match_partial np ps (map pat_of ts)"
  from assms have taken: "taken = take_slices ps ?counts ts"
    and ps1: "ps1 = drop (length ?counts) ps"
    by (simp_all add: consume_positionals_def Let_def)
  show "list_all (step_ok A (\<lambda>p. p \<in> set ps)) taken"
    unfolding taken by (rule take_slices_ok) simp
  show "set ps1 \<subseteq> set ps"
    unfolding ps1 by (rule set_drop_subset)
  show "list_ex is_take_positional taken" if "ps \<noteq> []" "ps1 = []"
  proof -
    from that ps1 have "?counts \<noteq> []" by auto
    with that(1) show ?thesis unfolding taken by (rule take_slices_nonempty)
  qed
qed

lemma consume_ok:
  "consume np args ps ts = (steps, ps2) \<Longrightarrow>
   \<forall>s a os e. (s, CO (Some a) os e) \<in> set ts \<longrightarrow> a \<in> set args \<Longrightarrow>
   list_all (step_ok (\<lambda>a. a \<in> set args) (\<lambda>p. p \<in> set ps)) steps \<and>
   (ps \<noteq> [] \<longrightarrow> ps2 = [] \<longrightarrow> list_ex is_take_positional steps)"
proof (induction np args ps ts arbitrary: steps ps2 rule: consume.induct)
  case (1 np args ps ts)
  note eq = "1.prems"(1) [unfolded consume.simps [of np args ps ts]]
  from "1.prems"(2) have mem: "\<And>s a os e. (s, CO (Some a) os e) \<in> set ts \<Longrightarrow> a \<in> set args"
    by blast
  let ?A = "\<lambda>a. a \<in> set args"
  obtain taken ps1 n where cp: "consume_positionals np ps ts = (taken, ps1, n)"
    by (cases "consume_positionals np ps ts") auto
  note cpo = consume_positionals_ok [OF cp]
  have opt: "list_all (step_ok ?A B) (consume_optional args t :: 'a step list)"
       "\<not> list_ex is_take_positional (consume_optional args t :: 'a step list)"
    if "t \<in> set ts" for t and B :: "'a \<Rightarrow> bool"
  proof -
    have m: "\<And>a os e. snd t = CO (Some a) os e \<Longrightarrow> a \<in> set args"
      using mem [of "fst t"] that by (cases t) auto
    show "list_all (step_ok ?A B) (consume_optional args t :: 'a step list)"
      by (rule consume_optional_ok(1) [OF m])
    show "\<not> list_ex is_take_positional (consume_optional args t :: 'a step list)"
      by (rule consume_optional_ok(2) [OF m])
  qed
  show ?case
  proof (cases "list_ex is_O ts")
    case False
    with eq cp have steps: "steps = taken @ map (\<lambda>t. Extra (fst t)) (drop n ts)"
      and ps2: "ps2 = ps1" by simp_all
    show ?thesis
      unfolding steps ps2 using cpo(1) [of ?A] cpo(3) extras_ok(1) [of ?A "\<lambda>p. p \<in> set ps" "drop n ts"]
      by simp
  next
    case ex: True
    then have ne: "ts \<noteq> []" by auto
    from ex have nn: "\<not> \<not> list_ex is_O ts" by simp
    show ?thesis
    proof (cases "is_O (hd ts)")
      case True
      obtain steps' ps2' where rec: "consume np args ps (tl ts) = (steps', ps2')"
        by (cases "consume np args ps (tl ts)") auto
      with eq ex True have steps: "steps = consume_optional args (hd ts) @ steps'"
        and ps2: "ps2 = ps2'" by simp_all
      have sub: "\<forall>s a os e. (s, CO (Some a) os e) \<in> set (tl ts) \<longrightarrow> a \<in> set args"
        using mem ne by (auto dest: list.set_sel(2))
      note ih = "1.IH"(1) [OF nn True rec sub]
      have hd: "hd ts \<in> set ts" using ne by simp
      show ?thesis
        unfolding steps ps2 using ih opt(1) [OF hd, of "\<lambda>p. p \<in> set ps"] by simp
    next
      case notO: False
      show ?thesis
      proof (cases "0 < n")
        case True
        obtain steps' ps2' where rec: "consume np args ps1 (drop n ts) = (steps', ps2')"
          by (cases "consume np args ps1 (drop n ts)") auto
        with eq ex notO cp True have steps: "steps = taken @ steps'"
          and ps2: "ps2 = ps2'" by simp_all
        have sub: "\<forall>s a os e. (s, CO (Some a) os e) \<in> set (drop n ts) \<longrightarrow> a \<in> set args"
          using mem by (auto dest: in_set_dropD)
        note ih = "1.IH"(2) [OF nn notO cp [symmetric] refl True rec sub]
        have ok': "list_all (step_ok ?A (\<lambda>p. p \<in> set ps)) steps'"
          using ih cpo(2) by (auto intro: steps_ok_mono)
        have pos: "list_ex is_take_positional (taken @ steps')" if "ps \<noteq> []" "ps2' = []"
        proof (cases "ps1 = []")
          case True
          with cpo(3) that show ?thesis by simp
        next
          case False
          with ih that show ?thesis by simp
        qed
        show ?thesis
          unfolding steps ps2 using cpo(1) [of ?A] ok' pos by simp
      next
        case False
        let ?rest = "dropWhile (\<lambda>t. \<not> is_O t) ts"
        obtain steps' ps2' where rec: "consume np args ps1 (tl ?rest) = (steps', ps2')"
          by (cases "consume np args ps1 (tl ?rest)") auto
        with eq ex notO cp False have steps:
          "steps = taken @ map (\<lambda>t. Extra (fst t)) (takeWhile (\<lambda>t. \<not> is_O t) ts) @
                   consume_optional args (hd ?rest) @ steps'"
          and ps2: "ps2 = ps2'" by simp_all
        have rne: "?rest \<noteq> []" using ex by (auto simp: list_ex_iff)
        have hd: "hd ?rest \<in> set ts"
          using rne by (meson hd_in_set set_dropWhileD)
        have sub: "\<forall>s a os e. (s, CO (Some a) os e) \<in> set (tl ?rest) \<longrightarrow> a \<in> set args"
        proof (intro allI impI)
          fix s a os e
          assume "(s, CO (Some a) os e) \<in> set (tl ?rest)"
          with rne have "(s, CO (Some a) os e) \<in> set ?rest" by (rule list.set_sel(2))
          then have "(s, CO (Some a) os e) \<in> set ts" by (rule set_dropWhileD)
          then show "a \<in> set args" by (rule mem)
        qed
        note ih = "1.IH"(3) [OF nn notO cp [symmetric] refl False rec sub]
        have ok': "list_all (step_ok ?A (\<lambda>p. p \<in> set ps)) steps'"
          using ih cpo(2) by (auto intro: steps_ok_mono)
        have pos: "list_ex is_take_positional (taken @ steps')" if "ps \<noteq> []" "ps2' = []"
        proof (cases "ps1 = []")
          case True
          with cpo(3) that show ?thesis by simp
        next
          case False
          with ih that show ?thesis by simp
        qed
        show ?thesis
          unfolding steps ps2
          using cpo(1) [of ?A] ok' pos opt(1) [OF hd, of "\<lambda>p. p \<in> set ps"]
            extras_ok(1) [of ?A "\<lambda>p. p \<in> set ps" "takeWhile (\<lambda>t. \<not> is_O t) ts"]
          by auto
      qed
    qed
  qed
qed


lemma getattr_setattr:
  "getattr (setattr ns k v) k' = (if k' = k then Some v else getattr ns k')"
  by (simp add: getattr_def setattr_def update_conv')

lemma getattr_delattr:
  "getattr (delattr ns k) k' = (if k' = k then None else getattr ns k')"
  by (simp add: getattr_def delattr_def delete_conv')

lemma error_not_Inr: "error p msg w \<noteq> (Inr x, w1)"
  by (simp add: error_def argparse_error_def)

lemma call_action_Inr:
  assumes "call_action p a ss ns w = (Inr ns1, w1)" and "keeps a"
  shows "w1 = w \<and> getattr ns1 ''command'' = getattr ns ''command'' \<and>
         (verbose_bool ns \<longrightarrow> verbose_bool ns1)"
proof (cases a)
  case (Optional_arg flags d k h)
  show ?thesis
  proof (cases k)
    case Store_true
    with assms Optional_arg show ?thesis
      by (auto simp: getattr_setattr verbose_bool_def simp del: dest.simps)
  next
    case (Store_const c)
    with assms Optional_arg show ?thesis
      by (auto simp: getattr_setattr verbose_bool_def simp del: dest.simps)
  next
    case Help_action
    with assms Optional_arg show ?thesis by simp
  qed
next
  case (Positional_arg n m na h)
  with assms show ?thesis
    by (auto simp: getattr_setattr verbose_bool_def)
qed

lemma sub_step_Inr:
  assumes "sub_step p s st w = (Inr st1, w1)" and "step_ok keeps keeps s"
  shows "w1 = w \<and> getattr (fst st1) ''command'' = getattr (fst st) ''command'' \<and>
         (verbose_bool (fst st) \<longrightarrow> verbose_bool (fst st1))"
proof -
  obtain ns ex where st: "st = (ns, ex)" by (cases st)
  show ?thesis
  proof (cases s)
    case (Take_optional a os)
    with assms st obtain ns1 where c: "call_action p a [] ns w = (Inr ns1, w1)"
      and st1: "st1 = (ns1, ex)"
      by (auto split: prod.splits sum.splits)
    from assms(2) Take_optional have "keeps a" by simp
    from call_action_Inr [OF c this] st st1 show ?thesis by simp
  next
    case (Take_positional a arg_strings)
    with assms st obtain ns1 where c: "call_action p a arg_strings ns w = (Inr ns1, w1)"
      and st1: "st1 = (ns1, ex)"
      by (auto split: prod.splits sum.splits)
    from assms(2) Take_positional have "keeps a" by simp
    from call_action_Inr [OF c this] st st1 show ?thesis by simp
  next
    case (Extra x)
    with assms st show ?thesis by auto
  next
    case (Fail_argument a msg)
    with assms st show ?thesis by (simp add: error_not_Inr)
  next
    case (Fail_exception e)
    with assms st show ?thesis by simp
  qed
qed

lemma run_steps_inv:
  assumes "run_steps act steps st w = (Inr st1, w1)"
    and "\<And>s st w st1 w1. s \<in> set steps \<Longrightarrow> I st \<Longrightarrow> act s st w = (Inr st1, w1) \<Longrightarrow> I st1 \<and> w1 = w"
    and "I st"
  shows "I st1 \<and> w1 = w"
  using assms
proof (induction steps arbitrary: st w)
  case Nil
  then show ?case by simp
next
  case (Cons s ss)
  from Cons.prems(1) obtain st' w' where a: "act s st w = (Inr st', w')"
    and r: "run_steps act ss st' w' = (Inr st1, w1)"
    by (auto split: prod.splits sum.splits)
  have s: "s \<in> set (s # ss)" by simp
  from Cons.prems(2) [OF s Cons.prems(3) a] have i: "I st'" and w: "w' = w" by simp_all
  have "I st1 \<and> w1 = w'"
  proof (rule Cons.IH [OF r])
    fix s0 st0 w0 st2 w2
    assume "s0 \<in> set ss" "I st0" "act s0 st0 w0 = (Inr st2, w2)"
    then show "I st2 \<and> w2 = w0" using Cons.prems(2) [of s0 st0 w0 st2 w2] by simp
  next
    show "I st'" by fact
  qed
  with w show ?case by simp
qed

lemma add_defaults_verbose_bool:
  "verbose_bool ns \<Longrightarrow> verbose_bool (add_defaults args ns)"
proof (induction args arbitrary: ns)
  case Nil
  then show ?case by simp
next
  case (Cons a as)
  have "verbose_bool
          (case default_of a of None \<Rightarrow> ns
           | Some d \<Rightarrow> if getattr ns (dest a) = None then setattr ns (dest a) d else ns)"
    using Cons.prems
    by (auto simp: verbose_bool_def getattr_setattr split: option.splits)
  then show ?case by (simp add: Cons.IH)
qed

lemma add_defaults_command:
  "getattr ns ''command'' = Some c \<Longrightarrow> getattr (add_defaults args ns) ''command'' = Some c"
proof (induction args arbitrary: ns)
  case Nil
  then show ?case by simp
next
  case (Cons a as)
  have "getattr
          (case default_of a of None \<Rightarrow> ns
           | Some d \<Rightarrow> if getattr ns (dest a) = None then setattr ns (dest a) d else ns)
          ''command'' = Some c"
    using Cons.prems
    by (auto simp: getattr_setattr split: option.splits)
  then show ?case by (simp add: Cons.IH)
qed

lemma dest_verbose_argument: "dest verbose_argument = ''verbose''"
  by (simp add: verbose_argument_def inferred_dest_def is_long_def)

lemma default_step_unset_or_bool:
  assumes "keeps a" and "verbose_unset_or_bool ns"
  shows "verbose_unset_or_bool
           (case default_of a of None \<Rightarrow> ns
            | Some d \<Rightarrow> if getattr ns (dest a) = None then setattr ns (dest a) d else ns)"
proof (cases a)
  case (Optional_arg flags d k h)
  show ?thesis
  proof (cases k)
    case Store_true
    with assms Optional_arg show ?thesis
      by (auto simp: getattr_setattr verbose_unset_or_bool_def simp del: dest.simps)
  next
    case (Store_const c)
    with assms Optional_arg show ?thesis
      by (auto simp: getattr_setattr verbose_unset_or_bool_def simp del: dest.simps)
  next
    case Help_action
    with assms Optional_arg show ?thesis by simp
  qed
next
  case (Positional_arg n m na h)
  with assms show ?thesis
    by (auto simp: getattr_setattr verbose_unset_or_bool_def)
qed

lemma default_step_verbose_argument:
  assumes "verbose_unset_or_bool ns"
  shows "verbose_bool
           (case default_of verbose_argument of None \<Rightarrow> ns
            | Some d \<Rightarrow>
                if getattr ns (dest verbose_argument) = None
                then setattr ns (dest verbose_argument) d else ns)"
proof -
  have d: "default_of verbose_argument = Some (PBool False)"
    by (simp add: verbose_argument_def)
  show ?thesis
    using assms unfolding d dest_verbose_argument
    by (auto simp: verbose_bool_def verbose_unset_or_bool_def getattr_setattr
          split: option.splits pyval.splits)
qed

lemma add_defaults_sets_verbose:
  "list_all keeps args \<Longrightarrow> verbose_argument \<in> set args \<Longrightarrow> verbose_unset_or_bool ns \<Longrightarrow>
   verbose_bool (add_defaults args ns)"
proof (induction args arbitrary: ns)
  case Nil
  then show ?case by simp
next
  case (Cons a as)
  let ?ns = "case default_of a of None \<Rightarrow> ns
             | Some d \<Rightarrow> if getattr ns (dest a) = None then setattr ns (dest a) d else ns"
  show ?case
  proof (cases "a = verbose_argument")
    case True
    have "verbose_bool ?ns"
      unfolding True by (rule default_step_verbose_argument [OF Cons.prems(3)])
    then have "verbose_bool (add_defaults as ?ns)" by (rule add_defaults_verbose_bool)
    then show ?thesis by simp
  next
    case False
    with Cons.prems have m: "verbose_argument \<in> set as" and k: "list_all keeps as"
      and ka: "keeps a" by simp_all
    from default_step_unset_or_bool [OF ka Cons.prems(3)] have "verbose_unset_or_bool ?ns" .
    from Cons.IH [OF k m this] show ?thesis by simp
  qed
qed


lemma parse_known_args_ok:
  assumes p: "parse_known_args p ss ns w = (Inr (ns1, un), w1)"
    and k: "list_all keeps (arguments p)"
    and v: "verbose_argument \<in> set (arguments p)"
    and u: "verbose_unset_or_bool ns"
    and c: "getattr ns ''command'' = Some c"
  shows "w1 = w \<and> verbose_bool ns1 \<and> getattr ns1 ''command'' = Some c"
proof -
  let ?args = "arguments p"
  from p obtain ts where ts: "classify ?args ss = Inr ts"
    by (cases "classify ?args ss") (auto simp: parse_known_args_def error_not_Inr)
  obtain steps ps where cs: "consume nargs_pattern ?args (filter is_positional ?args) ts = (steps, ps)"
    by (cases "consume nargs_pattern ?args (filter is_positional ?args) ts") auto
  let ?ns = "add_defaults ?args ns"
  from p ts cs have r: "run_steps (sub_step p) steps (?ns, []) w = (Inr (ns1, un), w1)"
    by (auto simp: parse_known_args_def error_not_Inr simp del: consume.simps
          split: prod.splits sum.splits if_splits)
  have mem: "\<forall>s a os e. (s, CO (Some a) os e) \<in> set ts \<longrightarrow> a \<in> set ?args"
    using classify_mem [OF ts] by blast
  from consume_ok [OF cs mem]
  have "list_all (step_ok (\<lambda>a. a \<in> set ?args) (\<lambda>a. a \<in> set (filter is_positional ?args))) steps"
    by simp
  then have ok: "list_all (step_ok keeps keeps) steps"
  proof (rule steps_ok_mono)
    fix a assume "a \<in> set ?args"
    with k show "keeps a" by (simp add: list_all_iff)
  next
    fix a assume "a \<in> set (filter is_positional ?args)"
    with k show "keeps a" by (simp add: list_all_iff)
  qed
  let ?I = "\<lambda>st. verbose_bool (fst st) \<and> getattr (fst st) ''command'' = Some c"
  have "?I (ns1, un) \<and> w1 = w"
  proof (rule run_steps_inv [OF r, where I = ?I])
    fix s st w0 st1 w2
    assume s: "s \<in> set steps" and i: "?I st" and a: "sub_step p s st w0 = (Inr st1, w2)"
    from ok s have "step_ok keeps keeps s" by (simp add: list_all_iff)
    from sub_step_Inr [OF a this] i show "?I st1 \<and> w2 = w0" by simp
  next
    show "?I (?ns, [])"
      using add_defaults_sets_verbose [OF k v u] add_defaults_command [OF c] by simp
  qed
  then show ?thesis by simp
qed

lemma parser_at_heap: "parser_at r ref = Some p \<Longrightarrow> p \<in> set (heap r)"
  by (auto simp: parser_at_def split: if_splits)

lemma call_subparsers_ok:
  assumes c: "call_subparsers r ss ns w = (Inr ns1, w1)"
    and g: "parsers_keep r"
    and u: "verbose_unset_or_bool ns"
  shows "w1 = w \<and> command_chosen r ns1"
proof -
  from c obtain parser_name rest where ss: "ss = parser_name # rest"
    by (cases ss) (auto simp: call_subparsers_def)
  from c ss obtain ref where ref: "map_of (name_parser_map r) parser_name = Some ref"
    by (cases "map_of (name_parser_map r) parser_name")
       (auto simp: call_subparsers_def error_not_Inr)
  from c ss ref obtain p where p: "parser_at r ref = Some p"
    by (cases "parser_at r ref") (auto simp: call_subparsers_def)
  let ?ns = "setattr ns ''command'' (PStr parser_name)"
  from c ss ref p obtain ns2 un where
    pk: "parse_known_args p rest ?ns w = (Inr (ns2, un), w1)"
    and ns1: "ns1 = ns2 \<or> (\<exists>l. ns1 = setattr ns2 unrecognized_args_attr (PList l))"
    by (auto simp: call_subparsers_def split: prod.splits sum.splits if_splits)
  from parser_at_heap [OF p] g have k: "list_all keeps (arguments p)"
    and v: "verbose_argument \<in> set (arguments p)"
    by (simp_all add: parsers_keep_def list_all_iff)
  have u': "verbose_unset_or_bool ?ns"
    using u by (simp add: verbose_unset_or_bool_def getattr_setattr)
  have c': "getattr ?ns ''command'' = Some (PStr parser_name)"
    by (simp add: getattr_setattr)
  from parse_known_args_ok [OF pk k v u' c']
  have w: "w1 = w" and vb: "verbose_bool ns2"
    and cm: "getattr ns2 ''command'' = Some (PStr parser_name)" by simp_all
  have "command_chosen r ns2"
    using vb cm ref by (simp add: command_chosen_def)
  with ns1 have "command_chosen r ns1"
    by (auto simp: command_chosen_def verbose_bool_def getattr_setattr unrecognized_args_attr_def)
  with w show ?thesis by simp
qed

lemma command_chosen_unset_or_bool: "command_chosen r ns \<Longrightarrow> verbose_unset_or_bool ns"
  by (auto simp: command_chosen_def verbose_bool_def verbose_unset_or_bool_def
        split: option.splits pyval.splits)

lemma top_step_ok:
  assumes a: "top_step r s st w = (Inr st1, w1)"
    and ok: "step_ok (\<lambda>a. a = help_argument) (\<lambda>u. True) s"
    and g: "parsers_keep r"
    and u: "verbose_unset_or_bool (fst st)"
  shows "w1 = w \<and> verbose_unset_or_bool (fst st1) \<and>
         (command_chosen r (fst st) \<or> is_take_positional s \<longrightarrow> command_chosen r (fst st1))"
proof -
  obtain ns ex where st: "st = (ns, ex)" by (cases st)
  show ?thesis
  proof (cases s)
    case (Take_optional x os)
    with ok have "x = help_argument" by simp
    with a st Take_optional show ?thesis by (simp add: help_argument_def)
  next
    case (Take_positional x arg_strings)
    with a st obtain ns1 where c: "call_subparsers r arg_strings ns w = (Inr ns1, w1)"
      and st1: "st1 = (ns1, ex)"
      by (auto split: prod.splits sum.splits)
    from u st have "verbose_unset_or_bool ns" by simp
    from call_subparsers_ok [OF c g this]
    have "w1 = w" and ch: "command_chosen r ns1" by simp_all
    with st1 command_chosen_unset_or_bool [OF ch] show ?thesis by simp
  next
    case (Extra x)
    with a st u show ?thesis by auto
  next
    case (Fail_argument x msg)
    with a st show ?thesis by (simp add: error_not_Inr)
  next
    case (Fail_exception e)
    with a st show ?thesis by simp
  qed
qed

lemma top_run_steps:
  "run_steps (top_step r) steps st w = (Inr st1, w1) \<Longrightarrow>
   list_all (step_ok (\<lambda>a. a = help_argument) (\<lambda>u. True)) steps \<Longrightarrow>
   parsers_keep r \<Longrightarrow> verbose_unset_or_bool (fst st) \<Longrightarrow>
   w1 = w \<and> verbose_unset_or_bool (fst st1) \<and>
   (command_chosen r (fst st) \<or> list_ex is_take_positional steps \<longrightarrow> command_chosen r (fst st1))"
proof (induction steps arbitrary: st w)
  case Nil
  then show ?case by simp
next
  case (Cons s ss)
  from Cons.prems(1) obtain st' w' where a: "top_step r s st w = (Inr st', w')"
    and rr: "run_steps (top_step r) ss st' w' = (Inr st1, w1)"
    by (auto split: prod.splits sum.splits)
  from Cons.prems(2) have s: "step_ok (\<lambda>a. a = help_argument) (\<lambda>u. True) s"
    and ss: "list_all (step_ok (\<lambda>a. a = help_argument) (\<lambda>u. True)) ss" by simp_all
  from top_step_ok [OF a s Cons.prems(3) Cons.prems(4)]
  have w: "w' = w" and u: "verbose_unset_or_bool (fst st')"
    and ch: "command_chosen r (fst st) \<or> is_take_positional s \<Longrightarrow> command_chosen r (fst st')"
    by simp_all
  from Cons.IH [OF rr ss Cons.prems(3) u]
  have w1: "w1 = w'" and u1: "verbose_unset_or_bool (fst st1)"
    and ch1: "command_chosen r (fst st') \<or> list_ex is_take_positional ss \<Longrightarrow>
              command_chosen r (fst st1)"
    by simp_all
  show ?case using w w1 u1 ch ch1 by auto
qed

lemma parsers_keep_karton: "parsers_keep karton_registry"
  by (simp add: parsers_keep_def karton_registry_value help_argument_def verbose_argument_def
        inferred_dest_def is_long_def)

lemma top_arguments: "arguments (top_parser karton_registry) = [help_argument]"
  by (simp add: karton_registry_value)

lemma registered_name_has_command:
  "map_of (name_parser_map karton_registry) nm \<noteq> None \<Longrightarrow>
   \<exists>command. get_command karton_registry nm = Some command"
  by (simp add: karton_registry_value get_command_def split: if_splits)

lemma parse_args_ok:
  assumes "parse_args karton_registry argv w = (Inr ns, w1)"
  shows "w1 = w \<and> command_chosen karton_registry ns"
proof -
  let ?r = "karton_registry"
  from assms obtain ns0 where top: "parse_known_args_top ?r argv w = (Inr (ns0, []), w1)"
    and ns: "ns = ns0"
    by (auto simp: parse_args_def error_not_Inr split: prod.splits sum.splits if_splits)
  from top obtain ts where ts: "classify [help_argument] argv = Inr ts"
    by (cases "classify [help_argument] argv")
       (auto simp: parse_known_args_top_def top_arguments error_not_Inr)
  obtain steps ps where cs: "consume (\<lambda>u. pattern_parser) [help_argument] [()] ts = (steps, ps)"
    by (cases "consume (\<lambda>u::unit. pattern_parser) [help_argument] [()] ts") auto
  let ?st = "(setattr (add_defaults [help_argument] []) ''command'' PNone, [] :: string list)"
  from top ts cs obtain ns2 ex where
    r: "run_steps (top_step ?r) steps ?st w = (Inr (ns2, ex), w1)"
    and ps: "ps = []"
    and ns0: "ns0 = ns2 \<or> ns0 = delattr ns2 unrecognized_args_attr"
    by (auto simp: parse_known_args_top_def top_arguments error_not_Inr
          simp del: consume.simps add_defaults.simps
          split: prod.splits sum.splits if_splits option.splits pyval.splits)
  have mem: "\<forall>s a os e. (s, CO (Some a) os e) \<in> set ts \<longrightarrow> a \<in> set [help_argument]"
    using classify_mem [OF ts] by blast
  from consume_ok [OF cs mem] ps
  have ok: "list_all (step_ok (\<lambda>a. a \<in> set [help_argument]) (\<lambda>p. p \<in> set [()])) steps"
    and pos: "list_ex is_take_positional steps" by simp_all
  from ok have ok': "list_all (step_ok (\<lambda>a. a = help_argument) (\<lambda>u. True)) steps"
    by (rule steps_ok_mono) simp_all
  have u: "verbose_unset_or_bool (fst ?st)"
    by (simp add: verbose_unset_or_bool_def getattr_setattr help_argument_def)
       (simp add: getattr_def)
  from top_run_steps [OF r ok' parsers_keep_karton u] pos
  have w: "w1 = w" and ch: "command_chosen ?r ns2" by simp_all
  from ch ns0 have "command_chosen ?r ns0"
    by (auto simp: command_chosen_def verbose_bool_def getattr_delattr unrecognized_args_attr_def)
  with w ns show ?thesis by simp
qed

subsection \<open>The verbosity state\<close>

lemma do_help_world:
  "snd (do_help r ns w) = w \<or> (\<exists>p. snd (do_help r ns w) = emit (Stdout_help p) w) \<or>
   (\<exists>m. snd (do_help r ns w) = emit (Log Error m) w)"
  by (auto simp: do_help_def print_help_def die_def split: option.splits pyval.splits)

lemma do_help_trace:
  "\<exists>evs. snd (do_help r ns w) = w\<lparr>trace := trace w @ evs\<rparr> \<and> (\<forall>b. Verbosity_set b \<notin> set evs)"
proof -
  from do_help_world [of r ns w] consider
    "snd (do_help r ns w) = w" | p where "snd (do_help r ns w) = emit (Stdout_help p) w"
    | m where "snd (do_help r ns w) = emit (Log Error m) w"
    by blast
  then show ?thesis
  proof cases
    case 1
    then have "snd (do_help r ns w) = w\<lparr>trace := trace w @ []\<rparr> \<and> (\<forall>b. Verbosity_set b \<notin> set [])"
      by simp
    then show ?thesis by blast
  next
    case 2
    then have "snd (do_help r ns w) = w\<lparr>trace := trace w @ [Stdout_help p]\<rparr> \<and>
               (\<forall>b. Verbosity_set b \<notin> set [Stdout_help p])"
      by (simp add: emit_def)
    then show ?thesis by blast
  next
    case 3
    then have "snd (do_help r ns w) = w\<lparr>trace := trace w @ [Log Error m]\<rparr> \<and>
               (\<forall>b. Verbosity_set b \<notin> set [Log Error m])"
      by (simp add: emit_def)
    then show ?thesis by blast
  qed
qed

text \<open>
  C6. In every invocation whose parse succeeds, the verbosity state is set from the parsed
  flag exactly once, before the lookup in the registry and before the handler of the
  chosen command is called: the parse changes nothing in the world, the namespace it
  returns has a Boolean under \<^verbatim>\<open>verbose\<close> and the name of a registered command under
  \<^verbatim>\<open>command\<close>, and \<^verbatim>\<open>run_karton\<close> is the call of the callback of that command in the
  world where \<^verbatim>\<open>set_verbose\<close> was called with that Boolean, whatever the handlers do. In
  that world the flag is the parsed one and the only event since the start is the setting
  of the verbosity. With the handlers of \<^verbatim>\<open>main.py\<close> nothing sets it again: the events
  of the whole run are that one setting followed by events that set no verbosity.
\<close>

theorem verbosity_set_once_before_handler:
  assumes "parse_args karton_registry argv w = (Inr parsed_args, w1)"
  shows "\<exists>v nm command.
           w1 = w \<and>
           getattr parsed_args ''verbose'' = Some (PBool v) \<and>
           getattr parsed_args ''command'' = Some (PStr nm) \<and>
           get_command karton_registry nm = Some command \<and>
           run_karton_with h argv w =
             call_callback h karton_registry (callback command) parsed_args (set_verbose v w) \<and>
           set_verbose v w = \<lparr>verbose_flag = v, trace = trace w @ [Verbosity_set v]\<rparr> \<and>
           (\<exists>evs. snd (run_karton argv w) =
                    \<lparr>verbose_flag = v, trace = trace w @ Verbosity_set v # evs\<rparr> \<and>
                  (\<forall>b. Verbosity_set b \<notin> set evs))"
proof -
  from parse_args_ok [OF assms] have w: "w1 = w"
    and ch: "command_chosen karton_registry parsed_args" by simp_all
  from ch obtain v where v: "getattr parsed_args ''verbose'' = Some (PBool v)"
    by (auto simp: command_chosen_def verbose_bool_def split: option.splits pyval.splits)
  from ch obtain nm where nm: "getattr parsed_args ''command'' = Some (PStr nm)"
    and reg: "map_of (name_parser_map karton_registry) nm \<noteq> None"
    by (auto simp: command_chosen_def split: option.splits pyval.splits)
  from registered_name_has_command [OF reg] obtain command where
    c: "get_command karton_registry nm = Some command" by blast
  have run: "run_karton_with h' argv w =
               call_callback h' karton_registry (callback command) parsed_args (set_verbose v w)"
    for h'
    using assms w v nm c
    by (simp add: run_karton_with_def build_registry_ok dispatch_def)
  have sv: "set_verbose v w = \<lparr>verbose_flag = v, trace = trace w @ [Verbosity_set v]\<rparr>"
    by (simp add: set_verbose_def emit_def)
  have "\<exists>evs. snd (run_karton argv w) =
                \<lparr>verbose_flag = v, trace = trace w @ Verbosity_set v # evs\<rparr> \<and>
              (\<forall>b. Verbosity_set b \<notin> set evs)"
  proof (cases "callback command = Do_help")
    case True
    from do_help_trace [of karton_registry parsed_args "set_verbose v w"] obtain evs where
      "snd (do_help karton_registry parsed_args (set_verbose v w)) =
         (set_verbose v w)\<lparr>trace := trace (set_verbose v w) @ evs\<rparr>"
      and no: "\<forall>b. Verbosity_set b \<notin> set evs" by blast
    with True have "snd (run_karton argv w) =
        \<lparr>verbose_flag = v, trace = trace w @ Verbosity_set v # evs\<rparr>"
      by (simp add: run_karton_def run call_callback_def sv)
    with no show ?thesis by blast
  next
    case False
    then have "snd (run_karton argv w) =
        \<lparr>verbose_flag = v, trace = trace w @ Verbosity_set v # []\<rparr> \<and>
        (\<forall>b. Verbosity_set b \<notin> set [])"
      by (simp add: run_karton_def run call_callback_def sv pass_handlers_def)
    then show ?thesis by blast
  qed
  with w v nm c run [of h] sv show ?thesis by blast
qed

theorem verbosity_set_once_before_handler_witness:
  "parse_args karton_registry [''start'', ''-v''] initial_world =
     (Inr [(''command'', PStr ''start''), (''verbose'', PBool True)], initial_world) \<and>
   run_karton_with (raising_handlers KeyboardInterrupt) [''start'', ''-v''] initial_world =
     (Inl KeyboardInterrupt, \<lparr>verbose_flag = True, trace = [Verbosity_set True]\<rparr>) \<and>
   run_karton [''start'', ''-v''] initial_world =
     (Inr (), \<lparr>verbose_flag = True, trace = [Verbosity_set True]\<rparr>)"
proof -
  let ?ns = "[(''command'', PStr ''start''), (''verbose'', PBool True)]"
  have p: "parse_args karton_registry [''start'', ''-v''] initial_world = (Inr ?ns, initial_world)"
    by (simp add: karton_registry_value engine_defs)
  have g: "getattr ?ns ''verbose'' = Some (PBool True)" "getattr ?ns ''command'' = Some (PStr ''start'')"
    by (simp_all add: getattr_def)
  have c: "get_command karton_registry ''start'' =
             Some \<lparr>name = ''start'', subparser = 2, callback = Do_start\<rparr>"
    by (simp add: get_command_def karton_registry_value)
  from verbosity_set_once_before_handler [OF p, of "raising_handlers KeyboardInterrupt"]
  obtain v nm command where
    "getattr ?ns ''verbose'' = Some (PBool v)" "getattr ?ns ''command'' = Some (PStr nm)"
    "get_command karton_registry nm = Some command"
    and run: "run_karton_with (raising_handlers KeyboardInterrupt) [''start'', ''-v''] initial_world =
       call_callback (raising_handlers KeyboardInterrupt) karton_registry (callback command) ?ns
         (set_verbose v initial_world)"
    and sv: "set_verbose v initial_world =
       \<lparr>verbose_flag = v, trace = trace initial_world @ [Verbosity_set v]\<rparr>"
    and "\<exists>evs. snd (run_karton [''start'', ''-v''] initial_world) =
                  \<lparr>verbose_flag = v, trace = trace initial_world @ Verbosity_set v # evs\<rparr> \<and>
               (\<forall>b. Verbosity_set b \<notin> set evs)"
    by blast
  with g c have v: "v = True" and nm: "nm = ''start''"
    and command: "command = \<lparr>name = ''start'', subparser = 2, callback = Do_start\<rparr>"
    by simp_all
  have a: "run_karton_with (raising_handlers KeyboardInterrupt) [''start'', ''-v''] initial_world =
     (Inl KeyboardInterrupt, \<lparr>verbose_flag = True, trace = [Verbosity_set True]\<rparr>)"
    unfolding run sv
    by (simp add: v command call_callback_def raising_handlers_def initial_world_def)
  have b: "run_karton [''start'', ''-v''] initial_world =
     (Inr (), \<lparr>verbose_flag = True, trace = [Verbosity_set True]\<rparr>)"
    by (simp add: run_karton_def run_start_verbose pass_handlers_def set_verbose_def emit_def
          initial_world_def)
  from p a b show ?thesis by simp
qed

subsection \<open>Error presentation\<close>

text \<open>
  C10. The help-and-exit-1 presentation is what \<^verbatim>\<open>error\<close> does exactly when the message
  is the string \<^verbatim>\<open>too few arguments\<close>; with any other message it does what the library's
  \<^verbatim>\<open>error\<close> does: the usage text and the error line on standard error, exit code 2.
\<close>

theorem error_special_case_iff_too_few_arguments:
  "((error p message w :: (exc + unit) \<times> world) = (Inl (SystemExit 1), print_help p w)
      \<longleftrightarrow> message = ''too few arguments'') \<and>
   (message \<noteq> ''too few arguments'' \<longrightarrow>
      (error p message w :: (exc + unit) \<times> world) = argparse_error p message w \<and>
      (argparse_error p message w :: (exc + unit) \<times> world) =
        (Inl (SystemExit 2),
         w\<lparr>trace := trace w @
            [Stderr_usage p, Stderr_text (prog p @ '': error: '' @ message @ [newline])]\<rparr>))"
  by (simp add: error_def argparse_error_def print_help_def print_usage_stderr_def emit_def)

theorem error_special_case_iff_too_few_arguments_witness:
  "(error (ArgumentParser ''karton'' []) ''unrecognized arguments: -x'' initial_world
      :: (exc + unit) \<times> world) =
     (Inl (SystemExit 2),
      initial_world\<lparr>trace := trace initial_world @
         [Stderr_usage (ArgumentParser ''karton'' []),
          Stderr_text (prog (ArgumentParser ''karton'' []) @ '': error: '' @
                       ''unrecognized arguments: -x'' @ [newline])]\<rparr>) \<and>
   (error (ArgumentParser ''karton'' []) ''too few arguments'' initial_world
      :: (exc + unit) \<times> world) =
     (Inl (SystemExit 1), print_help (ArgumentParser ''karton'' []) initial_world)"
  using error_special_case_iff_too_few_arguments
          [of "ArgumentParser ''karton'' []" "''unrecognized arguments: -x''" initial_world]
        error_special_case_iff_too_few_arguments
          [of "ArgumentParser ''karton'' []" "''too few arguments''" initial_world]
  by simp

end
